theory Spec2Isabelle
  imports Complex_Main
begin

section \<open>AutoMoLi: data model\<close>

text \<open>
  The app is one Python class, \<^verbatim>\<open>AutoMoLi(hass.Hass)\<close>, in
  \<^verbatim>\<open>apps/automoli/automoli.py\<close>. Its methods are coroutines that the host
  (AppDaemon) runs one at a time. The model passes the instance explicitly: every method
  takes the instance and returns the exception it raised, if any, with the updated instance.

  Entity ids, timer handles and times of day:
  \<^item> an entity id is a string;
  \<^item> a timer handle is the value \<^verbatim>\<open>run_in\<close> returns; the host makes a new one
    for every call, so handles are numbered;
  \<^item> a \<^verbatim>\<open>datetime.time\<close> is the number of seconds since midnight.
\<close>

type_synonym entity = string
type_synonym handle = nat
type_synonym tod = nat

text \<open>
  The value of a daytime's \<^verbatim>\<open>light\<close> key. The code only ever asks
  \<^verbatim>\<open>isinstance(_, str)\<close> and \<^verbatim>\<open>isinstance(_, int)\<close>; \<open>LOther\<close> stands for
  every value that is neither (\<^verbatim>\<open>None\<close>, a float, a list).
\<close>

datatype light_value = LInt int | LStr string | LOther

text \<open>The exceptions the methods raise. A \<^verbatim>\<open>ValueError\<close> carries what its message names.\<close>

datatype value_error =
    MissingStartTime string
  | DuplicateStartTime tod
  | InvalidIsoformat string
  | InvalidBrightnessScene light_value
  | NoLightsOrSensors

datatype py_error = ValueError value_error | TypeError | KeyError string

text \<open>A raw entry of the \<^verbatim>\<open>daytimes\<close> option: a dict whose keys may be missing.\<close>

record raw_daytime =
  rd_starttime :: "string option"
  rd_name :: "string option"
  rd_light :: "light_value option"
  rd_delay :: "int option"

text \<open>The dict \<^verbatim>\<open>build_daytimes\<close> makes of an entry; \<^verbatim>\<open>self.active\<close> holds one.\<close>

record daytime =
  dt_daytime :: string
  dt_delay :: int
  dt_starttime :: tod
  dt_light_setting :: light_value
  dt_is_hue_group :: bool

text \<open>The actuation calls (\<^verbatim>\<open>call_service\<close>) and the log lines (\<^verbatim>\<open>lg\<close>, \<^verbatim>\<open>log\<close>).\<close>

datatype service_call =
    HueActivateScene string string
  | TurnOn entity "int option"
  | TurnOff entity

datatype log_msg =
    LogReceivedEvent string entity
  | LogAlreadyOn
  | LogDisabled entity
  | LogCouldNotParseIlluminance entity
  | LogBrightEnough "entity list"
  | LogTurnedOnScene string
  | LogTurnedOnBrightness int
  | LogHumidityBlocked entity
  | LogTurnedOff
  | LogNoSensors string
  | LogDaytimeSwitch string

datatype listener =
    ListenEvent entity
  | ListenStateDetected entity string
  | ListenStateCleared entity string

text \<open>
  A Python float, as \<^verbatim>\<open>float(s)\<close> returns one for a string: a finite number, an
  infinity (\<^verbatim>\<open>"inf"\<close>, \<^verbatim>\<open>"-inf"\<close>) or not-a-number (\<^verbatim>\<open>"nan"\<close>).
  \<open>float_ge x t\<close> is Python's \<^verbatim>\<open>x >= t\<close> for a finite threshold \<open>t\<close>: every
  comparison with not-a-number is false.
\<close>

datatype pyfloat = Finite real | PosInf | NegInf | NaN

fun float_ge :: "pyfloat \<Rightarrow> real \<Rightarrow> bool" where
  "float_ge (Finite x) t = (x \<ge> t)"
| "float_ge PosInf t = True"
| "float_ge NegInf t = False"
| "float_ge NaN t = False"

text \<open>
  What a callback reads and does not change: the host's entity states, the clock, and the
  library functions the code calls.
  \<^item> \<open>get_state e\<close> is \<^verbatim>\<open>await self.get_state(e)\<close>: the state string, \<open>None\<close> for
    Python's \<^verbatim>\<open>None\<close>;
  \<^item> \<open>is_hue_group_attr e\<close> is the truth value of
    \<^verbatim>\<open>await self.get_state(entity_id=e, attribute="is_hue_group")\<close>;
  \<^item> \<open>to_float s\<close> is Python's \<^verbatim>\<open>float(s)\<close> on a string, \<open>None\<close> when it raises
    \<^verbatim>\<open>ValueError\<close>;
  \<^item> \<open>parse_time s\<close> is the host's \<^verbatim>\<open>parse_time(s, aware=True)\<close> and
    \<open>fromisoformat s\<close> is \<^verbatim>\<open>time.fromisoformat(s)\<close>, \<open>None\<close> when they raise
    \<^verbatim>\<open>ValueError\<close>;
  \<^item> \<open>now_tod\<close> is the host's clock at the time of the callback, as a time of day;
  \<^item> \<open>find_sensors k\<close> is the result of \<^verbatim>\<open>find_sensors(k)\<close>, the discovery by naming
    convention.
  The states are those at the time of one callback: every callback gets its own \<open>env\<close>.
\<close>

record env =
  get_state :: "entity \<Rightarrow> string option"
  is_hue_group_attr :: "entity \<Rightarrow> bool"
  friendly_name :: "entity \<Rightarrow> string"
  entity_exists :: "entity \<Rightarrow> bool"
  find_sensors :: "string \<Rightarrow> entity list"
  to_float :: "string \<Rightarrow> pyfloat option"
  parse_time :: "string \<Rightarrow> tod option"
  fromisoformat :: "string \<Rightarrow> tod option"
  now_tod :: tod

text \<open>
  The instance. The fields up to \<open>sensors_illuminance\<close> are the attributes
  \<^verbatim>\<open>initialize\<close> sets on \<^verbatim>\<open>self\<close> (Python sets are lists here, in the order
  the loops visit them; \<^verbatim>\<open>self.active = {}\<close> is \<open>None\<close>). The rest records what the
  instance has asked of the host: the timers scheduled by \<^verbatim>\<open>run_in\<close> and not
  cancelled, with their delays; the next handle \<^verbatim>\<open>run_in\<close> will return; the service
  calls; the log; the daily triggers; the listeners.
\<close>

record automoli =
  room :: string
  motion_on :: "string option"
  motion_off :: "string option"
  thr_humidity :: "real option"
  thr_illuminance :: "real option"
  disable_switch_entities :: "entity list"
  active :: "daytime option"
  handles :: "handle set"
  lights :: "entity list"
  sensors_motion :: "entity list"
  sensors_humidity :: "entity list"
  sensors_illuminance :: "entity list"
  timers :: "handle \<rightharpoonup> int"
  next_handle :: handle
  calls :: "service_call list"
  logs :: "log_msg list"
  daily :: "(tod \<times> daytime) list"
  listeners :: "listener list"
  args_active_daytime :: "string option"

section \<open>Host calls\<close>

definition lg :: "log_msg \<Rightarrow> automoli \<Rightarrow> automoli" where
  "lg m w = w\<lparr>logs := logs w @ [m]\<rparr>"

definition call_service :: "service_call \<Rightarrow> automoli \<Rightarrow> automoli" where
  "call_service c w = w\<lparr>calls := calls w @ [c]\<rparr>"

text \<open>
  \<^verbatim>\<open>_ = [await self.cancel_timer(handle) for handle in self.handles.copy()]\<close> followed by
  \<^verbatim>\<open>self.handles.clear()\<close>. Cancelling a timer that is no longer scheduled does nothing.
\<close>

definition cancel_handles :: "automoli \<Rightarrow> automoli" where
  "cancel_handles w =
     w\<lparr>timers := (\<lambda>h. if h \<in> handles w then None else timers w h), handles := {}\<rparr>"

text \<open>\<^verbatim>\<open>self.handles.add(await self.run_in(self.lights_off, delay))\<close>.\<close>

definition run_in_add :: "int \<Rightarrow> automoli \<Rightarrow> automoli" where
  "run_in_add d w =
     w\<lparr>timers := (timers w)(next_handle w \<mapsto> d),
       handles := insert (next_handle w) (handles w),
       next_handle := Suc (next_handle w)\<rparr>"

text \<open>Python's truth value of a threshold: \<^verbatim>\<open>None\<close> and \<^verbatim>\<open>0\<close> are false.\<close>

fun truthy :: "real option \<Rightarrow> bool" where
  "truthy None = False"
| "truthy (Some t) = (t \<noteq> 0)"

text \<open>\<^verbatim>\<open>not x\<close> for the result of \<^verbatim>\<open>get_state\<close>: \<^verbatim>\<open>None\<close> and the empty string.\<close>

fun falsy_state :: "string option \<Rightarrow> bool" where
  "falsy_state None = True"
| "falsy_state (Some s) = (s = [])"

definition startswith :: "string \<Rightarrow> string \<Rightarrow> bool" where
  "startswith s p = (take (length p) s = p)"

section \<open>The occupancy state machine\<close>

text \<open>
  \<^verbatim>\<open>refresh_timer\<close>. \<^verbatim>\<open>self.active["delay"]\<close> raises \<^verbatim>\<open>KeyError\<close> while
  \<^verbatim>\<open>self.active\<close> is still the empty dict; the handles are cleared by then.
\<close>

definition refresh_timer :: "automoli \<Rightarrow> py_error option \<times> automoli" where
  "refresh_timer w =
     (let w1 = cancel_handles w in
      case active w1 of
        None \<Rightarrow> (Some (KeyError ''delay''), w1)
      | Some a \<Rightarrow>
          if dt_delay a \<noteq> 0 then (None, run_in_add (dt_delay a) w1) else (None, w1))"

text \<open>
  \<^verbatim>\<open>is_disabled\<close>: the first disable switch that reads \<^verbatim>\<open>"off"\<close> or has a false
  state, if any.
\<close>

fun disabled_by :: "env \<Rightarrow> entity list \<Rightarrow> entity option" where
  "disabled_by env [] = None"
| "disabled_by env (e # es) =
     (if get_state env e = Some ''off'' \<or> falsy_state (get_state env e) then Some e
      else disabled_by env es)"

definition is_disabled :: "env \<Rightarrow> automoli \<Rightarrow> bool \<times> automoli" where
  "is_disabled env w =
     (case disabled_by env (disable_switch_entities w) of
        Some e \<Rightarrow> (True, lg (LogDisabled e) w)
      | None \<Rightarrow> (False, w))"

text \<open>
  The humidity loop of \<^verbatim>\<open>lights_off\<close>. \<^verbatim>\<open>float(None)\<close> raises
  \<^verbatim>\<open>TypeError\<close>, which \<^verbatim>\<open>except ValueError\<close> does not catch; a string that
  \<^verbatim>\<open>float\<close> rejects is skipped by \<^verbatim>\<open>continue\<close>.
\<close>

fun humidity_loop :: "env \<Rightarrow> real \<Rightarrow> entity list \<Rightarrow> entity list \<Rightarrow> py_error + entity list" where
  "humidity_loop env t [] blocker = Inr blocker"
| "humidity_loop env t (s # ss) blocker =
     (case get_state env s of
        None \<Rightarrow> Inl TypeError
      | Some v \<Rightarrow>
          (case to_float env v of
             None \<Rightarrow> humidity_loop env t ss blocker
           | Some x \<Rightarrow>
               humidity_loop env t ss (if float_ge x t then blocker @ [s] else blocker)))"

definition humidity_blocker :: "env \<Rightarrow> automoli \<Rightarrow> py_error + entity list" where
  "humidity_blocker env w =
     (case thr_humidity w of
        None \<Rightarrow> Inr []
      | Some t \<Rightarrow> if t \<noteq> 0 then humidity_loop env t (sensors_humidity w) [] else Inr [])"

fun turn_off_loop :: "entity list \<Rightarrow> automoli \<Rightarrow> automoli" where
  "turn_off_loop [] w = w"
| "turn_off_loop (e # es) w = turn_off_loop es (call_service (TurnOff e) w)"

definition any_light_on :: "env \<Rightarrow> automoli \<Rightarrow> bool" where
  "any_light_on env w = list_ex (\<lambda>l. get_state env l = Some ''on'') (lights w)"

text \<open>
  \<^verbatim>\<open>lights_off\<close>. The log line after the turn-off calls reads
  \<^verbatim>\<open>self.active['delay']\<close>, which raises \<^verbatim>\<open>KeyError\<close> while no daytime is
  active.
\<close>

definition lights_off :: "env \<Rightarrow> automoli \<Rightarrow> py_error option \<times> automoli" where
  "lights_off env w =
     (case is_disabled env w of
        (True, w1) \<Rightarrow> (None, w1)
      | (False, w1) \<Rightarrow>
          (case humidity_blocker env w1 of
             Inl e \<Rightarrow> (Some e, w1)
           | Inr blocker \<Rightarrow>
               if blocker \<noteq> [] then
                 (case refresh_timer w1 of
                    (Some e, w2) \<Rightarrow> (Some e, w2)
                  | (None, w2) \<Rightarrow> (None, lg (LogHumidityBlocked (last blocker)) w2))
               else
                 (let w2 = cancel_handles w1 in
                  if any_light_on env w2
                  then (let w3 = turn_off_loop (lights w2) w2 in
                        case active w3 of
                          None \<Rightarrow> (Some (KeyError ''delay''), w3)
                        | Some a \<Rightarrow> (None, lg LogTurnedOff w3))
                  else (None, w2))))"

text \<open>
  The illuminance loop of \<^verbatim>\<open>lights_on\<close>: a string that \<^verbatim>\<open>float\<close> rejects ends
  the method at once (\<^verbatim>\<open>except ValueError: ...; return\<close>); \<^verbatim>\<open>float(None)\<close> raises
  \<^verbatim>\<open>TypeError\<close>.
\<close>

datatype gate = GatePass | GateBlocked "entity list" | GateParseFail entity | GateTypeError

fun illuminance_loop :: "env \<Rightarrow> real \<Rightarrow> entity list \<Rightarrow> entity list \<Rightarrow> gate" where
  "illuminance_loop env t [] blocker = (if blocker \<noteq> [] then GateBlocked blocker else GatePass)"
| "illuminance_loop env t (s # ss) blocker =
     (case get_state env s of
        None \<Rightarrow> GateTypeError
      | Some v \<Rightarrow>
          (case to_float env v of
             None \<Rightarrow> GateParseFail s
           | Some x \<Rightarrow>
               illuminance_loop env t ss (if float_ge x t then blocker @ [s] else blocker)))"

definition illuminance_gate :: "env \<Rightarrow> automoli \<Rightarrow> gate" where
  "illuminance_gate env w =
     (case thr_illuminance w of
        None \<Rightarrow> GatePass
      | Some t \<Rightarrow> if t \<noteq> 0 then illuminance_loop env t (sensors_illuminance w) [] else GatePass)"

fun scene_loop :: "env \<Rightarrow> daytime \<Rightarrow> string \<Rightarrow> entity list \<Rightarrow> automoli \<Rightarrow> automoli" where
  "scene_loop env a s [] w = w"
| "scene_loop env a s (e # es) w =
     (if dt_is_hue_group a \<and> is_hue_group_attr env e
      then scene_loop env a s es (call_service (HueActivateScene (friendly_name env e) s) w)
      else scene_loop env a s es
             (call_service (TurnOn (if startswith s ''scene.'' then s else e) None) w))"

fun brightness_loop :: "int \<Rightarrow> entity list \<Rightarrow> automoli \<Rightarrow> automoli" where
  "brightness_loop n [] w = w"
| "brightness_loop n (e # es) w =
     (if startswith e ''switch.''
      then brightness_loop n es (call_service (TurnOn e None) w)
      else brightness_loop n es (lg (LogTurnedOnBrightness n) (call_service (TurnOn e (Some n)) w)))"

definition lights_on :: "env \<Rightarrow> automoli \<Rightarrow> py_error option \<times> automoli" where
  "lights_on env w =
     (case illuminance_gate env w of
        GateTypeError \<Rightarrow> (Some TypeError, w)
      | GateParseFail s \<Rightarrow> (None, lg (LogCouldNotParseIlluminance s) w)
      | GateBlocked blocker \<Rightarrow> (None, lg (LogBrightEnough blocker) w)
      | GatePass \<Rightarrow>
          (case active w of
             None \<Rightarrow> (Some (KeyError ''light_setting''), w)
           | Some a \<Rightarrow>
               (case dt_light_setting a of
                  LStr s \<Rightarrow> (None, lg (LogTurnedOnScene s) (scene_loop env a s (lights w) w))
                | LInt n \<Rightarrow>
                    if n = 0 then lights_off env w else (None, brightness_loop n (lights w) w)
                | LOther \<Rightarrow> (Some (ValueError (InvalidBrightnessScene LOther)), w))))"

text \<open>
  \<^verbatim>\<open>motion_event\<close>, the handler of the discrete motion events and the body the
  state-change wrapper names.
\<close>

definition motion_event :: "env \<Rightarrow> string \<Rightarrow> entity \<Rightarrow> automoli \<Rightarrow> py_error option \<times> automoli" where
  "motion_event env event entity_id w =
     (case is_disabled env (lg (LogReceivedEvent event entity_id) w) of
        (True, w1) \<Rightarrow> (None, w1)
      | (False, w1) \<Rightarrow>
          (case (if \<not> any_light_on env w1 then lights_on env w1 else (None, lg LogAlreadyOn w1)) of
             (Some e, w2) \<Rightarrow> (Some e, w2)
           | (None, w2) \<Rightarrow>
               if event \<noteq> ''state_changed_detection'' then refresh_timer w2 else (None, w2)))"

text \<open>
  \<^verbatim>\<open>motion_detected\<close>, registered for the state change to \<^verbatim>\<open>motion_state_on\<close>. It
  cancels the timers and then evaluates
  \<^verbatim>\<open>self.motion_event("state_changed_detection", data, kwargs)\<close> with no
  \<^verbatim>\<open>await\<close>. Calling an \<^verbatim>\<open>async def\<close> only makes a coroutine object; its body
  runs when the object is awaited, and this one is dropped. So the method ends after
  clearing the handles.
\<close>

definition motion_detected :: "env \<Rightarrow> entity \<Rightarrow> automoli \<Rightarrow> py_error option \<times> automoli" where
  "motion_detected env entity w = (None, cancel_handles w)"

text \<open>\<^verbatim>\<open>motion_cleared\<close>, registered for the state change to \<^verbatim>\<open>motion_state_off\<close>.\<close>

definition motion_cleared :: "env \<Rightarrow> automoli \<Rightarrow> py_error option \<times> automoli" where
  "motion_cleared env w =
     (if list_all (\<lambda>s. get_state env s = motion_off w) (sensors_motion w)
      then refresh_timer w
      else (None, cancel_handles w))"

text \<open>
  \<^verbatim>\<open>switch_daytime\<close> with a daytime in \<^verbatim>\<open>kwargs\<close>: the daily trigger, or the
  initial install (\<^verbatim>\<open>initial=True\<close>, which skips the notice).
\<close>

definition switch_daytime :: "daytime \<Rightarrow> bool \<Rightarrow> automoli \<Rightarrow> automoli" where
  "switch_daytime d initial w =
     (let w1 = w\<lparr>active := Some d\<rparr> in
      if \<not> initial then lg (LogDaytimeSwitch (dt_daytime d)) w1 else w1)"

section \<open>The daytime schedule\<close>

text \<open>
  The host's \<^verbatim>\<open>now_is_between(start, end)\<close>. The host, AppDaemon, is not part of the
  repository; this is the rule of its scheduler. It puts both times on the date of now.
  When the end is before the start the interval spans midnight: the end moves to the next
  day, and so does now when it is before both. The result is
  \<^verbatim>\<open>start_date <= now <= end_date\<close>. On times of day this is the closed interval
  when the end is not before the start (only the start itself when the two are equal), and
  "from the start on, or before the end" when it is.
\<close>

definition now_is_between :: "env \<Rightarrow> tod \<Rightarrow> tod \<Rightarrow> bool" where
  "now_is_between env s e =
     (if e < s then s \<le> now_tod env \<or> now_tod env < e
      else s \<le> now_tod env \<and> now_tod env \<le> e)"

text \<open>The decimal digits of an index, for the default name \<^verbatim>\<open>f"{DEFAULT_NAME}_{idx}"\<close>.\<close>

fun show_nat :: "nat \<Rightarrow> string" where
  "show_nat n =
     (if n < 10 then [char_of (48 + n)]
      else show_nat (n div 10) @ [char_of (48 + n mod 10)])"

text \<open>\<^verbatim>\<open>str(x)\<close> for a string or \<^verbatim>\<open>None\<close>.\<close>

fun str_opt :: "string option \<Rightarrow> string" where
  "str_opt None = ''None''"
| "str_opt (Some s) = s"

definition DEFAULT_LIGHT_SETTING :: light_value where
  "DEFAULT_LIGHT_SETTING = LInt 100"

definition DEFAULT_DELAY :: int where
  "DEFAULT_DELAY = 150"

definition DEFAULT_DAYTIMES :: "raw_daytime list" where
  "DEFAULT_DAYTIMES =
     [\<lparr>rd_starttime = Some ''05:30'', rd_name = Some ''morning'', rd_light = Some (LInt 25), rd_delay = None\<rparr>,
      \<lparr>rd_starttime = Some ''07:30'', rd_name = Some ''day'', rd_light = Some (LInt 100), rd_delay = None\<rparr>,
      \<lparr>rd_starttime = Some ''20:30'', rd_name = Some ''evening'', rd_light = Some (LInt 90), rd_delay = None\<rparr>,
      \<lparr>rd_starttime = Some ''22:30'', rd_name = Some ''night'', rd_light = Some (LInt 0), rd_delay = None\<rparr>]"

definition dt_name_of :: "nat \<Rightarrow> raw_daytime \<Rightarrow> string" where
  "dt_name_of idx d = (case rd_name d of Some n \<Rightarrow> n | None \<Rightarrow> ''daytime_'' @ show_nat idx)"

definition dt_light_of :: "raw_daytime \<Rightarrow> light_value" where
  "dt_light_of d = (case rd_light d of Some l \<Rightarrow> l | None \<Rightarrow> DEFAULT_LIGHT_SETTING)"

definition dt_delay_of :: "int \<Rightarrow> raw_daytime \<Rightarrow> int" where
  "dt_delay_of delay d = (case rd_delay d of Some n \<Rightarrow> n | None \<Rightarrow> delay)"

text \<open>
  \<^verbatim>\<open>dt_is_hue_group\<close>. For a string that does not start with \<^verbatim>\<open>scene.\<close> the
  \<^verbatim>\<open>and\<close> chain reaches \<^verbatim>\<open>any((await ... for entity in self.lights))\<close>. A generator
  expression with \<^verbatim>\<open>await\<close> in it is an asynchronous generator, which
  \<^verbatim>\<open>any\<close> cannot iterate: it raises \<^verbatim>\<open>TypeError\<close>, whatever the lights are.
  (The list comprehensions of the other methods are evaluated in place.)
\<close>

definition hue_group_check :: "light_value \<Rightarrow> py_error + bool" where
  "hue_group_check l =
     (case l of
        LStr s \<Rightarrow> if \<not> startswith s ''scene.'' then Inl TypeError else Inr False
      | LInt n \<Rightarrow> Inr False
      | LOther \<Rightarrow> Inr False)"

text \<open>The \<^verbatim>\<open>dict(daytime=..., delay=..., starttime=..., light_setting=..., is_hue_group=...)\<close>.\<close>

definition mk_daytime :: "int \<Rightarrow> nat \<Rightarrow> raw_daytime \<Rightarrow> tod \<Rightarrow> bool \<Rightarrow> daytime" where
  "mk_daytime delay idx d dt_start is_hue =
     \<lparr>dt_daytime = dt_name_of idx d,
      dt_delay = dt_delay_of delay d,
      dt_starttime = dt_start,
      dt_light_setting = dt_light_of d,
      dt_is_hue_group = is_hue\<rparr>"

text \<open>
  One round of the loop of \<^verbatim>\<open>build_daytimes\<close> per entry, in the order of the
  statements: the hue-group flag, the entry's own start time
  (\<^verbatim>\<open>daytime.get("starttime") + ":00"\<close> raises \<^verbatim>\<open>TypeError\<close> when the key is
  missing), the next entry's start time read with \<^verbatim>\<open>time.fromisoformat\<close>, the
  uniqueness check, the install when now is in the entry's interval, the daily trigger.
\<close>

fun build_loop ::
  "env \<Rightarrow> int \<Rightarrow> raw_daytime list \<Rightarrow> nat \<Rightarrow> tod set \<Rightarrow> raw_daytime list \<Rightarrow> automoli
     \<Rightarrow> py_error option \<times> automoli" where
  "build_loop env delay daytimes idx starttimes [] w = (None, w)"
| "build_loop env delay daytimes idx starttimes (d # rest) w =
     (case hue_group_check (dt_light_of d) of
        Inl e \<Rightarrow> (Some e, w)
      | Inr is_hue \<Rightarrow>
          (case rd_starttime d of
             None \<Rightarrow> (Some TypeError, w)
           | Some s \<Rightarrow>
               (case parse_time env (s @ '':00'') of
                  None \<Rightarrow> (Some (ValueError (MissingStartTime (dt_name_of idx d))), w)
                | Some dt_start \<Rightarrow>
                    (let daytime = mk_daytime delay idx d dt_start is_hue;
                         nxt = str_opt (rd_starttime (daytimes ! ((idx + 1) mod length daytimes)))
                     in case fromisoformat env nxt of
                          None \<Rightarrow> (Some (ValueError (InvalidIsoformat nxt)), w)
                        | Some next_dt_start \<Rightarrow>
                            if dt_start \<in> starttimes
                            then (Some (ValueError (DuplicateStartTime dt_start)), w)
                            else
                              (let w1 = (if now_is_between env dt_start next_dt_start
                                         then (switch_daytime daytime True w)
                                                \<lparr>args_active_daytime := Some (dt_daytime daytime)\<rparr>
                                         else w);
                                   w2 = w1\<lparr>daily := daily w1 @ [(dt_start, daytime)]\<rparr>
                               in build_loop env delay daytimes (idx + 1)
                                    (insert dt_start starttimes) rest w2)))))"

definition build_daytimes ::
  "env \<Rightarrow> int \<Rightarrow> raw_daytime list \<Rightarrow> automoli \<Rightarrow> py_error option \<times> automoli" where
  "build_daytimes env delay daytimes w = build_loop env delay daytimes 0 {} daytimes w"

section \<open>Initialization\<close>

text \<open>
  The app's options (\<^verbatim>\<open>self.args\<close>). \<^verbatim>\<open>disable_switch_entities\<close> is the list
  the code makes of the option (a single string becomes a one-element list, a missing or
  empty option the empty list). \<^verbatim>\<open>lights\<close> is the empty list when the option is
  missing; an empty collection given for it is not among the inputs.
\<close>

record args =
  arg_room :: "string option"
  arg_motion_state_on :: "string option"
  arg_motion_state_off :: "string option"
  arg_humidity_threshold :: "real option"
  arg_illuminance_threshold :: "real option"
  arg_disable_switch_entities :: "entity list"
  arg_disable_switch_entity :: "entity option"
  arg_lights :: "entity list"
  arg_motion :: "entity list option"
  arg_humidity :: "entity list option"
  arg_illuminance :: "entity list option"
  arg_delay :: "int option"
  arg_daytimes :: "raw_daytime list option"

definition KEYWORD_LIGHTS :: string where "KEYWORD_LIGHTS = ''light.''"
definition KEYWORD_MOTION :: string where "KEYWORD_MOTION = ''binary_sensor.motion_sensor_''"
definition KEYWORD_HUMIDITY :: string where "KEYWORD_HUMIDITY = ''sensor.humidity_''"
definition KEYWORD_ILLUMINANCE :: string where "KEYWORD_ILLUMINANCE = ''sensor.illumination_''"

text \<open>
  One round of the loop over \<^verbatim>\<open>SENSORS_OPTIONAL\<close>: the sensors given or found, and
  the threshold. It returns the sensor set and the threshold the instance keeps.
\<close>

definition optional_sensors ::
  "env \<Rightarrow> string \<Rightarrow> string \<Rightarrow> entity list option \<Rightarrow> real option \<Rightarrow> automoli
     \<Rightarrow> entity list \<times> real option \<times> automoli" where
  "optional_sensors env sensor_type keyword given threshold w =
     (let sensors = (case given of Some xs \<Rightarrow> xs | None \<Rightarrow> find_sensors env keyword) in
      if sensors \<noteq> [] then
        (if truthy threshold then (remdups sensors, threshold, w) else ([], threshold, w))
      else
        (if truthy threshold then ([], None, lg (LogNoSensors sensor_type) w)
         else ([], threshold, w)))"

text \<open>Python's truth value of a configured state string.\<close>

definition truthy_str :: "string option \<Rightarrow> bool" where
  "truthy_str s = (\<not> falsy_state s)"

text \<open>
  The loop over the motion sensors: the listeners for one sensor (the motion event when
  neither state string is configured, the two state changes when both are), then
  \<^verbatim>\<open>refresh_timer\<close> for every sensor.
\<close>

definition register_listeners :: "entity \<Rightarrow> automoli \<Rightarrow> automoli" where
  "register_listeners sensor w =
     (if \<not> (truthy_str (motion_on w) \<or> truthy_str (motion_off w))
      then w\<lparr>listeners := listeners w @ [ListenEvent sensor]\<rparr>
      else if truthy_str (motion_on w) \<and> truthy_str (motion_off w)
      then w\<lparr>listeners := listeners w @
               [ListenStateDetected sensor (str_opt (motion_on w)),
                ListenStateCleared sensor (str_opt (motion_off w))]\<rparr>
      else w)"

fun listen_loop :: "entity list \<Rightarrow> automoli \<Rightarrow> py_error option \<times> automoli" where
  "listen_loop [] w = (None, w)"
| "listen_loop (sensor # rest) w =
     (case refresh_timer (register_listeners sensor w) of
        (Some e, w2) \<Rightarrow> (Some e, w2)
      | (None, w2) \<Rightarrow> listen_loop rest w2)"

text \<open>
  \<^verbatim>\<open>initialize\<close>, from the version check on (the model runs on Python 3.8 or later)
  up to the listeners; the closing \<^verbatim>\<open>show_info\<close> only logs the options.
  \<open>init_state\<close> is the instance when the requirements check is reached.
\<close>

definition init_state :: "env \<Rightarrow> args \<Rightarrow> automoli" where
  "init_state env a =
     (let room0 = str_opt (arg_room a);
          given_lights = arg_lights a
      in \<lparr>room = room0,
          motion_on = arg_motion_state_on a,
          motion_off = arg_motion_state_off a,
          thr_humidity = arg_humidity_threshold a,
          thr_illuminance = arg_illuminance_threshold a,
          disable_switch_entities =
            remdups (arg_disable_switch_entities a @
               (case arg_disable_switch_entity a of
                  Some e \<Rightarrow> if e \<noteq> [] then [e] else []
                | None \<Rightarrow> [])),
          active = None,
          handles = {},
          lights =
            (if given_lights \<noteq> [] then given_lights
             else if entity_exists env (''light.'' @ room0) then [''light.'' @ room0]
             else remdups (find_sensors env KEYWORD_LIGHTS)),
          sensors_motion =
            remdups (case arg_motion a of Some ms \<Rightarrow> ms
                     | None \<Rightarrow> find_sensors env KEYWORD_MOTION),
          sensors_humidity = [],
          sensors_illuminance = [],
          timers = Map.empty,
          next_handle = 0,
          calls = [],
          logs = [],
          daily = [],
          listeners = [],
          args_active_daytime = None\<rparr>)"

definition initialize :: "env \<Rightarrow> args \<Rightarrow> py_error option \<times> automoli" where
  "initialize env a =
     (let w0 = init_state env a in
      if lights w0 = [] \<or> sensors_motion w0 = [] then (Some (ValueError NoLightsOrSensors), w0)
      else
        (case optional_sensors env ''humidity'' KEYWORD_HUMIDITY (arg_humidity a)
                (thr_humidity w0) w0 of
           (hs, ht, w1) \<Rightarrow>
             (case optional_sensors env ''illuminance'' KEYWORD_ILLUMINANCE (arg_illuminance a)
                     (thr_illuminance w1) w1 of
                (ils, ilt, w2) \<Rightarrow>
                  (let w3 = w2\<lparr>sensors_humidity := hs, thr_humidity := ht,
                               sensors_illuminance := ils, thr_illuminance := ilt\<rparr>
                   in case build_daytimes env
                             (case arg_delay a of Some d \<Rightarrow> d | None \<Rightarrow> DEFAULT_DELAY)
                             (case arg_daytimes a of Some ds \<Rightarrow> ds | None \<Rightarrow> DEFAULT_DAYTIMES)
                             w3 of
                        (Some e, w4) \<Rightarrow> (Some e, w4)
                      | (None, w4) \<Rightarrow> listen_loop (sensors_motion w4) w4))))"

section \<open>Callbacks after initialization\<close>

text \<open>
  What the host delivers to a running instance: the two state-change callbacks, the motion
  event, the expiry of the delay timer (\<^verbatim>\<open>lights_off\<close>), a daily trigger
  (\<^verbatim>\<open>switch_daytime\<close>), and \<^verbatim>\<open>refresh_timer\<close> itself. Callbacks run one after
  the other; an exception ends the callback and the instance lives on with the state it
  had reached.
\<close>

datatype event =
    MotionDetected entity
  | MotionCleared
  | MotionEvent string entity
  | TimerExpired
  | DaytimeTrigger daytime
  | RefreshTimer

fun step :: "env \<Rightarrow> event \<Rightarrow> automoli \<Rightarrow> py_error option \<times> automoli" where
  "step env (MotionDetected entity) w = motion_detected env entity w"
| "step env MotionCleared w = motion_cleared env w"
| "step env (MotionEvent event entity) w = motion_event env event entity w"
| "step env TimerExpired w = lights_off env w"
| "step env (DaytimeTrigger d) w = (None, switch_daytime d False w)"
| "step env RefreshTimer w = refresh_timer w"

fun run :: "(env \<times> event) list \<Rightarrow> automoli \<Rightarrow> automoli" where
  "run [] w = w"
| "run ((env, ev) # rest) w = run rest (snd (step env ev w))"

section \<open>Auxiliary definitions for the statements\<close>

text \<open>
  The spec's test for the interval of a daytime entry, from its start \<open>s\<close> to the next
  entry's start \<open>e\<close>: half-open, on the time of day only, and wrapping past midnight when
  the end is not after the start.
\<close>

definition half_open :: "tod \<Rightarrow> tod \<Rightarrow> tod \<Rightarrow> bool" where
  "half_open now s e = (if s < e then s \<le> now \<and> now < e else s \<le> now \<or> now < e)"

text \<open>The service call \<^verbatim>\<open>lights_on\<close> makes for one entity when the setting is a string.\<close>

definition scene_call :: "env \<Rightarrow> daytime \<Rightarrow> string \<Rightarrow> entity \<Rightarrow> service_call" where
  "scene_call env a s e =
     (if dt_is_hue_group a \<and> is_hue_group_attr env e then HueActivateScene (friendly_name env e) s
      else TurnOn (if startswith s ''scene.'' then s else e) None)"

text \<open>A handle set with no or one element.\<close>

definition at_most_one :: "handle set \<Rightarrow> bool" where
  "at_most_one H = (finite H \<and> card H \<le> 1)"

text \<open>
  A small installation for concrete runs: the kitchen, with one light, one motion sensor
  and the default daytimes. The environment is given by the entity states and the clock;
  its parsers know the strings the examples use.
\<close>

definition demo_env :: "(entity \<times> string) list \<Rightarrow> tod \<Rightarrow> env" where
  "demo_env states now =
     \<lparr>get_state = map_of states,
      is_hue_group_attr = (\<lambda>e. False),
      friendly_name = (\<lambda>e. e),
      entity_exists = (\<lambda>e. False),
      find_sensors = (\<lambda>k. []),
      to_float = map_of [(''40'', Finite 40), (''60'', Finite 60), (''75'', Finite 75),
                         (''nan'', NaN)],
      parse_time = map_of [(''05:30:00'', 19800), (''07:30:00'', 27000),
                           (''20:30:00'', 73800), (''22:30:00'', 81000)],
      fromisoformat = map_of [(''05:30'', 19800), (''07:30'', 27000),
                              (''20:30'', 73800), (''22:30'', 81000)],
      now_tod = now\<rparr>"

definition demo_args :: args where
  "demo_args =
     \<lparr>arg_room = Some ''kitchen'',
      arg_motion_state_on = None,
      arg_motion_state_off = None,
      arg_humidity_threshold = None,
      arg_illuminance_threshold = None,
      arg_disable_switch_entities = [],
      arg_disable_switch_entity = None,
      arg_lights = [''light.kitchen''],
      arg_motion = Some [''binary_sensor.motion_sensor_kitchen''],
      arg_humidity = None,
      arg_illuminance = None,
      arg_delay = None,
      arg_daytimes = None\<rparr>"

text \<open>
  The kitchen while the \<open>day\<close> setting is active and one delay timer is pending.
\<close>

definition demo_state :: automoli where
  "demo_state =
     \<lparr>room = ''kitchen'',
      motion_on = None,
      motion_off = None,
      thr_humidity = None,
      thr_illuminance = None,
      disable_switch_entities = [],
      active = Some \<lparr>dt_daytime = ''day'', dt_delay = 150, dt_starttime = 27000,
                      dt_light_setting = LInt 100, dt_is_hue_group = False\<rparr>,
      handles = {0},
      lights = [''light.kitchen''],
      sensors_motion = [''binary_sensor.motion_sensor_kitchen''],
      sensors_humidity = [],
      sensors_illuminance = [],
      timers = [0 \<mapsto> 150],
      next_handle = 1,
      calls = [],
      logs = [],
      daily = [],
      listeners = [ListenEvent ''binary_sensor.motion_sensor_kitchen''],
      args_active_daytime = Some ''day''\<rparr>"

text \<open>
  The first half of \<^verbatim>\<open>motion_event\<close> after the disable check: turn the lights on
  unless one is on already.
\<close>

definition turn_on_step :: "env \<Rightarrow> automoli \<Rightarrow> py_error option \<times> automoli" where
  "turn_on_step env w = (if \<not> any_light_on env w then lights_on env w else (None, lg LogAlreadyOn w))"

text \<open>
  The float a sensor reads: \<^verbatim>\<open>float(await self.get_state(sensor))\<close> where it
  returns. A sensor blocks when Python finds its reading at or above the threshold.
\<close>

definition reading :: "env \<Rightarrow> entity \<Rightarrow> pyfloat option" where
  "reading env s = (case get_state env s of None \<Rightarrow> None | Some v \<Rightarrow> to_float env v)"

definition blocks :: "env \<Rightarrow> real \<Rightarrow> entity \<Rightarrow> bool" where
  "blocks env t s = (case reading env s of None \<Rightarrow> False | Some x \<Rightarrow> float_ge x t)"

text \<open>The attributes that hold the configuration.\<close>

definition config_of ::
  "automoli \<Rightarrow> string \<times> string option \<times> string option \<times> real option \<times> real option
     \<times> entity list \<times> entity list \<times> entity list \<times> entity list \<times> entity list" where
  "config_of w = (room w, motion_on w, motion_off w, thr_humidity w, thr_illuminance w,
      disable_switch_entities w, lights w, sensors_motion w, sensors_humidity w,
      sensors_illuminance w)"

text \<open>
  The parsed start time of a raw entry: \<^verbatim>\<open>parse_time(daytime.get("starttime") + ":00")\<close>
  where it returns.
\<close>

definition start_of :: "env \<Rightarrow> raw_daytime \<Rightarrow> tod option" where
  "start_of env d =
     (case rd_starttime d of None \<Rightarrow> None | Some s \<Rightarrow> parse_time env (s @ '':00''))"

text \<open>
  An entry that raises nothing on its own: the hue-group flag is computed, the start time
  parses, and \<^verbatim>\<open>time.fromisoformat\<close> reads the same time from the raw string.
\<close>

definition well_formed :: "env \<Rightarrow> raw_daytime \<Rightarrow> bool" where
  "well_formed env d =
     (hue_group_check (dt_light_of d) = Inr False
      \<and> start_of env d \<noteq> None
      \<and> fromisoformat env (str_opt (rd_starttime d)) = start_of env d)"

text \<open>
  The spec's interval of entry \<open>i\<close> of a schedule with the start times \<open>ts\<close>: half-open,
  from its start to the start of entry \<open>(i + 1) mod n\<close>, wrapping past midnight.
\<close>

definition in_interval :: "tod \<Rightarrow> tod list \<Rightarrow> nat \<Rightarrow> bool" where
  "in_interval now ts i = half_open now (ts ! i) (ts ! ((i + 1) mod length ts))"

text \<open>
  The instance after one round of the loop of \<^verbatim>\<open>build_daytimes\<close> that raises
  nothing, for entry \<open>idx\<close> of \<open>ds\<close> with the start times \<open>ts\<close>.
\<close>

definition build_round ::
  "env \<Rightarrow> int \<Rightarrow> raw_daytime list \<Rightarrow> tod list \<Rightarrow> nat \<Rightarrow> automoli \<Rightarrow> automoli" where
  "build_round env delay ds ts idx w =
     (let daytime = mk_daytime delay idx (ds ! idx) (ts ! idx) False;
          w1 = (if now_is_between env (ts ! idx) (ts ! ((idx + 1) mod length ts))
                then (switch_daytime daytime True w)\<lparr>args_active_daytime := Some (dt_daytime daytime)\<rparr>
                else w)
      in w1\<lparr>daily := daily w1 @ [(ts ! idx, daytime)]\<rparr>)"

text \<open>
  The options of the kitchen with two daytimes; the \<^verbatim>\<open>light\<close> of the second is
  neither a string nor an integer (a float, say).
\<close>

definition odd_light_args :: args where
  "odd_light_args =
     demo_args\<lparr>arg_daytimes := Some
       [\<lparr>rd_starttime = Some ''05:30'', rd_name = Some ''morning'',
         rd_light = Some (LInt 25), rd_delay = None\<rparr>,
        \<lparr>rd_starttime = Some ''07:30'', rd_name = Some ''odd'',
         rd_light = Some LOther, rd_delay = None\<rparr>]\<rparr>"

section \<open>Helper lemmas\<close>


lemma turn_off_loop_eq: "turn_off_loop es w = w\<lparr>calls := calls w @ map TurnOff es\<rparr>"
  by (induction es arbitrary: w) (simp_all add: call_service_def)

lemma scene_loop_eq: "scene_loop env a s es w = w\<lparr>calls := calls w @ map (scene_call env a s) es\<rparr>"
  by (induction es arbitrary: w) (simp_all add: call_service_def scene_call_def)

lemma brightness_loop_eq:
  "brightness_loop n es w =
     w\<lparr>calls := calls w @ map (\<lambda>e. TurnOn e (if startswith e ''switch.'' then None else Some n)) es,
       logs := logs w @ map (\<lambda>e. LogTurnedOnBrightness n) (filter (\<lambda>e. \<not> startswith e ''switch.'') es)\<rparr>"
  by (induction es arbitrary: w) (simp_all add: call_service_def lg_def)

lemma handles_cancel [simp]: "handles (cancel_handles w) = {}"
  by (simp add: cancel_handles_def)

lemma handles_lg [simp]: "handles (lg m w) = handles w"
  by (simp add: lg_def)

lemma handles_refresh_timer:
  "handles (snd (refresh_timer w)) =
     (case active w of None \<Rightarrow> {} | Some d \<Rightarrow> if dt_delay d \<noteq> 0 then {next_handle w} else {})"
  by (simp add: refresh_timer_def Let_def cancel_handles_def run_in_add_def split: option.splits)

lemma amo_refresh: "at_most_one (handles (snd (refresh_timer w)))"
  by (simp add: handles_refresh_timer at_most_one_def split: option.splits)

lemma amo_empty [simp]: "at_most_one {}" by (simp add: at_most_one_def)

lemma handles_is_disabled [simp]: "handles (snd (is_disabled env w)) = handles w"
  by (simp add: is_disabled_def split: option.splits)

lemma is_disabled_cases:
  "is_disabled env w = (b, w1) \<Longrightarrow>
     (b \<and> (\<exists>e. disabled_by env (disable_switch_entities w) = Some e \<and> w1 = lg (LogDisabled e) w))
     \<or> (\<not> b \<and> w1 = w \<and> disabled_by env (disable_switch_entities w) = None)"
  by (auto simp: is_disabled_def split: option.splits)

lemma amo_lights_off: "at_most_one (handles w) \<Longrightarrow> at_most_one (handles (snd (lights_off env w)))"
  using amo_refresh[of w]
  by (auto simp: lights_off_def Let_def turn_off_loop_eq split: prod.splits bool.splits sum.splits option.splits if_splits dest!: is_disabled_cases)

lemma amo_lights_on: "at_most_one (handles w) \<Longrightarrow> at_most_one (handles (snd (lights_on env w)))"
  by (auto simp: lights_on_def scene_loop_eq brightness_loop_eq amo_lights_off split: gate.splits option.splits light_value.splits)

lemma amo_motion_event: "at_most_one (handles w) \<Longrightarrow> at_most_one (handles (snd (motion_event env ev en w)))"
  using amo_lights_on[of "lg (LogReceivedEvent ev en) w" env] amo_refresh[of "snd (lights_on env (lg (LogReceivedEvent ev en) w))"]
    amo_refresh[of "lg LogAlreadyOn (lg (LogReceivedEvent ev en) w)"]
  by (auto simp: motion_event_def split: prod.splits bool.splits option.splits if_splits dest!: is_disabled_cases)

lemma amo_motion_cleared: "at_most_one (handles (snd (motion_cleared env w)))"
  by (simp add: motion_cleared_def amo_refresh)

lemma amo_step: "at_most_one (handles w) \<Longrightarrow> at_most_one (handles (snd (step env ev w)))"
  by (cases ev) (simp_all add: amo_motion_event amo_motion_cleared amo_lights_off amo_refresh motion_detected_def switch_daytime_def)

lemma amo_run: "at_most_one (handles w) \<Longrightarrow> at_most_one (handles (run evs w))"
  by (induction evs arbitrary: w) (auto simp: amo_step)

lemma handles_build_loop: "handles (snd (build_loop env delay ds idx sts rest w)) = handles w"
  by (induction rest arbitrary: idx sts w) (auto simp: Let_def switch_daytime_def split: sum.splits option.splits)

lemma amo_listen_loop: "at_most_one (handles w) \<Longrightarrow> at_most_one (handles (snd (listen_loop ss w)))"
proof (induction ss arbitrary: w)
  case Nil
  then show ?case by simp
next
  case (Cons s ss)
  show ?case
  proof (cases "refresh_timer (register_listeners s w)")
    case (Pair r w2)
    have "at_most_one (handles w2)"
      using amo_refresh [of "register_listeners s w"] Pair by simp
    then show ?thesis
      using Pair Cons.IH [of w2] by (cases r) simp_all
  qed
qed

lemma optional_sensors_handles:
  "optional_sensors env ty kw g t w = (xs, t', w') \<Longrightarrow> handles w' = handles w"
  by (auto simp: optional_sensors_def Let_def split: if_splits)

lemma handles_init_state [simp]: "handles (init_state env a) = {}"
  by (simp add: init_state_def Let_def)

lemma amo_initialize: "at_most_one (handles (snd (initialize env a)))"
proof (cases "lights (init_state env a) = [] \<or> sensors_motion (init_state env a) = []")
  case True
  then show ?thesis by (simp add: initialize_def Let_def)
next
  case False
  obtain hs ht w1 where o1: "optional_sensors env ''humidity'' KEYWORD_HUMIDITY (arg_humidity a)
                (thr_humidity (init_state env a)) (init_state env a) = (hs, ht, w1)"
    using prod_cases3 by blast
  obtain ils ilt w2 where o2: "optional_sensors env ''illuminance'' KEYWORD_ILLUMINANCE (arg_illuminance a)
                     (thr_illuminance w1) w1 = (ils, ilt, w2)"
    using prod_cases3 by blast
  define w3 where "w3 = w2\<lparr>sensors_humidity := hs, thr_humidity := ht,
                               sensors_illuminance := ils, thr_illuminance := ilt\<rparr>"
  have h3: "handles w3 = {}"
    using optional_sensors_handles[OF o1] optional_sensors_handles[OF o2] by (simp add: w3_def)
  obtain r w4 where b: "build_daytimes env
                             (case arg_delay a of Some d \<Rightarrow> d | None \<Rightarrow> DEFAULT_DELAY)
                             (case arg_daytimes a of Some ds \<Rightarrow> ds | None \<Rightarrow> DEFAULT_DAYTIMES)
                             w3 = (r, w4)" by force
  have h4: "handles w4 = {}"
    using handles_build_loop[of env _ _ 0 "{}" _ w3] b h3 by (metis build_daytimes_def snd_conv)
  have "at_most_one (handles (snd (listen_loop (sensors_motion w4) w4)))"
    by (rule amo_listen_loop) (simp add: h4)
  then show ?thesis
    using False o1 o2 b h4 by (simp add: initialize_def Let_def w3_def split: option.splits)
qed


lemma is_disabled_None:
  "disabled_by env (disable_switch_entities w) = None \<Longrightarrow> is_disabled env w = (False, w)"
  by (simp add: is_disabled_def)

lemma is_disabled_Some:
  "disabled_by env (disable_switch_entities w) = Some e \<Longrightarrow> is_disabled env w = (True, lg (LogDisabled e) w)"
  by (simp add: is_disabled_def)

lemma lg_fields [simp]:
  "disable_switch_entities (lg m w) = disable_switch_entities w"
  "calls (lg m w) = calls w" "timers (lg m w) = timers w" "active (lg m w) = active w"
  "next_handle (lg m w) = next_handle w" "lights (lg m w) = lights w"
  "thr_humidity (lg m w) = thr_humidity w" "thr_illuminance (lg m w) = thr_illuminance w"
  "sensors_humidity (lg m w) = sensors_humidity w" "sensors_illuminance (lg m w) = sensors_illuminance w"
  "config_of (lg m w) = config_of w"
  by (simp_all add: lg_def config_of_def)

lemma any_light_on_lg [simp]: "any_light_on env (lg m w) = any_light_on env w"
  by (simp add: any_light_on_def)

lemma cancel_fields [simp]:
  "calls (cancel_handles w) = calls w" "active (cancel_handles w) = active w"
  "next_handle (cancel_handles w) = next_handle w" "logs (cancel_handles w) = logs w"
  "config_of (cancel_handles w) = config_of w"
  by (simp_all add: cancel_handles_def config_of_def)

lemma refresh_fields [simp]:
  "calls (snd (refresh_timer w)) = calls w" "active (snd (refresh_timer w)) = active w"
  "logs (snd (refresh_timer w)) = logs w"
  "config_of (snd (refresh_timer w)) = config_of w"
  by (simp_all add: refresh_timer_def Let_def run_in_add_def cancel_handles_def config_of_def split: option.splits)

lemma illuminance_loop_readable:
  "list_all (\<lambda>s. reading env s \<noteq> None) ss \<Longrightarrow>
   illuminance_loop env t ss b =
     (if b @ filter (blocks env t) ss \<noteq> [] then GateBlocked (b @ filter (blocks env t) ss) else GatePass)"
  by (induction ss arbitrary: b) (auto simp: reading_def blocks_def split: option.splits)

lemma illuminance_loop_unreadable:
  "list_ex (\<lambda>s. reading env s = None) ss \<Longrightarrow>
   (illuminance_loop env t ss b = GateTypeError \<and> (\<exists>s\<in>set ss. get_state env s = None))
   \<or> (\<exists>s\<in>set ss. get_state env s \<noteq> None \<and> reading env s = None
          \<and> illuminance_loop env t ss b = GateParseFail s)"
proof (induction ss arbitrary: b)
  case Nil
  then show ?case by simp
next
  case (Cons a ss)
  show ?case
  proof (cases "get_state env a")
    case None
    then show ?thesis by simp
  next
    case (Some v)
    note st = this
    show ?thesis
    proof (cases "to_float env v")
      case None
      then show ?thesis using st by (simp add: reading_def)
    next
      case (Some x)
      then have "reading env a = Some x" using st by (simp add: reading_def)
      then have "list_ex (\<lambda>s. reading env s = None) ss" using Cons.prems by simp
      from Cons.IH [OF this, of "if float_ge x t then b @ [a] else b"]
      show ?thesis using Some st by auto
    qed
  qed
qed

lemma handles_lights_on:
  "(case active w of None \<Rightarrow> True | Some d \<Rightarrow> dt_light_setting d \<noteq> LInt 0) \<Longrightarrow>
   handles (snd (lights_on env w)) = handles w"
  by (auto simp: lights_on_def scene_loop_eq brightness_loop_eq
        split: gate.splits option.splits light_value.splits)

lemma humidity_loop_states:
  "list_all (\<lambda>s. get_state env s \<noteq> None) ss \<Longrightarrow>
   humidity_loop env t ss b = Inr (b @ filter (blocks env t) ss)"
  by (induction ss arbitrary: b) (auto simp: reading_def blocks_def split: option.splits)

lemma not_all_readable:
  "(\<not> list_all (\<lambda>s. reading env s \<noteq> None) ss) = list_ex (\<lambda>s. reading env s = None) ss"
  by (induction ss) auto

lemma config_record [simp]:
  "config_of (w\<lparr>calls := c\<rparr>) = config_of w"
  "config_of (w\<lparr>logs := l\<rparr>) = config_of w"
  "config_of (w\<lparr>active := a\<rparr>) = config_of w"
  "config_of (w\<lparr>daily := dl\<rparr>) = config_of w"
  "config_of (w\<lparr>listeners := ls\<rparr>) = config_of w"
  "config_of (w\<lparr>args_active_daytime := n\<rparr>) = config_of w"
  by (simp_all add: config_of_def)

lemma config_lights_off: "config_of (snd (lights_off env w)) = config_of w"
proof (cases "disabled_by env (disable_switch_entities w)")
  case None
  show ?thesis
    by (cases "refresh_timer w")
       (auto simp: lights_off_def is_disabled_None [OF None] Let_def turn_off_loop_eq
          split: sum.splits option.splits dest: arg_cong [where f = "\<lambda>p. config_of (snd p)"])
next
  case (Some e)
  then show ?thesis by (simp add: lights_off_def is_disabled_Some)
qed

lemma config_lights_on: "config_of (snd (lights_on env w)) = config_of w"
  by (simp add: lights_on_def scene_loop_eq brightness_loop_eq config_lights_off
        split: gate.splits option.splits light_value.splits)

lemma config_motion_event: "config_of (snd (motion_event env ev en w)) = config_of w"
proof (cases "disabled_by env (disable_switch_entities w)")
  case None
  then have d: "is_disabled env (lg (LogReceivedEvent ev en) w) = (False, lg (LogReceivedEvent ev en) w)"
    by (simp add: is_disabled_None)
  have l: "config_of (snd (lights_on env (lg (LogReceivedEvent ev en) w))) = config_of w"
    by (simp add: config_lights_on)
  show ?thesis
    using l
    by (cases "lights_on env (lg (LogReceivedEvent ev en) w)")
       (auto simp: motion_event_def d split: option.splits
          dest: arg_cong [where f = "\<lambda>p. config_of (snd p)"])
next
  case (Some e)
  then show ?thesis by (simp add: motion_event_def is_disabled_Some)
qed

lemma config_step: "config_of (snd (step env ev w)) = config_of w"
  by (cases ev)
     (simp_all add: config_motion_event config_lights_off motion_detected_def motion_cleared_def
        switch_daytime_def Let_def lg_def)

lemma config_run: "config_of (run evs w) = config_of w"
  by (induction evs arbitrary: w) (auto simp: config_step)

lemma config_build_loop: "config_of (snd (build_loop env delay ds idx sts rest w)) = config_of w"
  by (induction rest arbitrary: idx sts w)
     (auto simp: Let_def switch_daytime_def split: sum.splits option.splits)

lemma config_register_listeners [simp]:
  "config_of (register_listeners s w) = config_of w"
  by (simp add: register_listeners_def)

lemma config_listen_loop: "config_of (snd (listen_loop ss w)) = config_of w"
proof (induction ss arbitrary: w)
  case Nil
  then show ?case by simp
next
  case (Cons s ss)
  show ?case
  proof (cases "refresh_timer (register_listeners s w)")
    case (Pair r w2)
    have "config_of w2 = config_of w"
      using refresh_fields(4) [of "register_listeners s w"] Pair by simp
    then show ?thesis
      using Pair Cons.IH [of w2] by (cases r) simp_all
  qed
qed

lemma optional_sensors_falsy:
  "\<not> truthy t \<Longrightarrow> optional_sensors env ty kw g t w = ([], t, w)"
  by (simp add: optional_sensors_def Let_def)

lemma optional_sensors_config:
  "optional_sensors env ty kw g t w = (xs, t', w') \<Longrightarrow> config_of w' = config_of w"
  by (auto simp: optional_sensors_def Let_def split: if_splits)

lemma config_thresholds:
  "config_of w = config_of w' \<Longrightarrow>
     thr_humidity w = thr_humidity w' \<and> thr_illuminance w = thr_illuminance w'
     \<and> sensors_humidity w = sensors_humidity w' \<and> sensors_illuminance w = sensors_illuminance w'"
  by (simp add: config_of_def)

lemma init_state_thresholds [simp]:
  "thr_humidity (init_state env a) = arg_humidity_threshold a"
  "thr_illuminance (init_state env a) = arg_illuminance_threshold a"
  by (simp_all add: init_state_def Let_def)

lemma initialize_thresholds:
  "(\<not> truthy (arg_humidity_threshold a) \<longrightarrow>
      thr_humidity (snd (initialize env a)) = arg_humidity_threshold a)
   \<and> (\<not> truthy (arg_illuminance_threshold a) \<longrightarrow>
      thr_illuminance (snd (initialize env a)) = arg_illuminance_threshold a)"
proof (cases "lights (init_state env a) = [] \<or> sensors_motion (init_state env a) = []")
  case True
  then show ?thesis by (simp add: initialize_def Let_def)
next
  case False
  let ?w0 = "init_state env a"
  obtain hs ht w1 where o1: "optional_sensors env ''humidity'' KEYWORD_HUMIDITY (arg_humidity a)
                (thr_humidity ?w0) ?w0 = (hs, ht, w1)"
    using prod_cases3 by blast
  obtain ils ilt w2 where o2: "optional_sensors env ''illuminance'' KEYWORD_ILLUMINANCE (arg_illuminance a)
                     (thr_illuminance w1) w1 = (ils, ilt, w2)"
    using prod_cases3 by blast
  define w3 where "w3 = w2\<lparr>sensors_humidity := hs, thr_humidity := ht,
                               sensors_illuminance := ils, thr_illuminance := ilt\<rparr>"
  have t1: "thr_illuminance w1 = arg_illuminance_threshold a"
    using optional_sensors_config [OF o1] config_thresholds [of w1 ?w0] by simp
  have t3: "thr_humidity w3 = ht" "thr_illuminance w3 = ilt"
    by (simp_all add: w3_def)
  have ht: "ht = arg_humidity_threshold a" if "\<not> truthy (arg_humidity_threshold a)"
    using o1 optional_sensors_falsy [of "arg_humidity_threshold a"] that by simp
  have ilt: "ilt = arg_illuminance_threshold a" if "\<not> truthy (arg_illuminance_threshold a)"
    using o2 t1 optional_sensors_falsy [of "arg_illuminance_threshold a"] that by simp
  obtain r w4 where b: "build_daytimes env
                             (case arg_delay a of Some d \<Rightarrow> d | None \<Rightarrow> DEFAULT_DELAY)
                             (case arg_daytimes a of Some ds \<Rightarrow> ds | None \<Rightarrow> DEFAULT_DAYTIMES)
                             w3 = (r, w4)" by force
  have c4: "config_of w4 = config_of w3"
    using config_build_loop [of env _ _ 0 "{}" _ w3] b by (metis build_daytimes_def snd_conv)
  have c5: "config_of (snd (listen_loop (sensors_motion w4) w4)) = config_of w3"
    by (simp add: config_listen_loop c4)
  have "config_of (snd (initialize env a)) = config_of w3"
    using False o1 o2 b c4 c5 by (simp add: initialize_def Let_def w3_def split: option.splits)
  then have "thr_humidity (snd (initialize env a)) = ht \<and> thr_illuminance (snd (initialize env a)) = ilt"
    using config_thresholds [of "snd (initialize env a)" w3] t3 by simp
  then show ?thesis using ht ilt by simp
qed

lemma dup_seen:
  "d \<in> set rest \<Longrightarrow> start_of env d = Some t \<Longrightarrow> t \<in> sts \<Longrightarrow>
   fst (build_loop env delay ds idx sts rest w) \<noteq> None"
proof (induction rest arbitrary: idx sts w)
  case Nil
  then show ?case by simp
next
  case (Cons x rest)
  show ?case
  proof (cases "d = x")
    case True
    then show ?thesis using Cons.prems
      by (auto simp: start_of_def Let_def split: sum.splits option.splits)
  next
    case False
    then have "d \<in> set rest" using Cons.prems by simp
    then have "fst (build_loop env delay ds idx' (insert t' sts) rest w') \<noteq> None" for idx' t' w'
      using Cons.IH [of "insert t' sts" idx' w'] Cons.prems by simp
    then show ?thesis
      by (auto simp: Let_def split: sum.splits option.splits)
  qed
qed

lemma dup_fails:
  "i < j \<Longrightarrow> j < length rest \<Longrightarrow> start_of env (rest ! i) = Some t \<Longrightarrow>
   start_of env (rest ! j) = Some t \<Longrightarrow>
   fst (build_loop env delay ds idx sts rest w) \<noteq> None"
proof (induction rest arbitrary: i j idx sts w)
  case Nil
  then show ?case by simp
next
  case (Cons x rest)
  obtain j' where j: "j = Suc j'" using Cons.prems(1) by (cases j) auto
  have j': "j' < length rest" "start_of env (rest ! j') = Some t"
    using Cons.prems j by auto
  show ?case
  proof (cases i)
    case 0
    then have x: "start_of env x = Some t" using Cons.prems by simp
    have "fst (build_loop env delay ds idx' (insert t sts) rest w') \<noteq> None" for idx' w'
      using dup_seen [of "rest ! j'" rest env t "insert t sts"] j' by simp
    then show ?thesis using x
      by (auto simp: start_of_def Let_def split: sum.splits option.splits)
  next
    case (Suc i')
    then have "fst (build_loop env delay ds idx' sts' rest w') \<noteq> None" for idx' sts' w'
      using Cons.IH [of i' j' idx' sts' w'] Cons.prems j j' by simp
    then show ?thesis
      by (auto simp: Let_def split: sum.splits option.splits)
  qed
qed

lemma build_error_kind:
  "list_all (well_formed env) ds \<Longrightarrow> ds \<noteq> [] \<Longrightarrow> set rest \<subseteq> set ds \<Longrightarrow>
   fst (build_loop env delay ds idx sts rest w) = Some e \<Longrightarrow>
   \<exists>t. e = ValueError (DuplicateStartTime t)"
proof (induction rest arbitrary: idx sts w)
  case Nil
  then show ?case by simp
next
  case (Cons x rest)
  have wx: "well_formed env x" using Cons.prems by (auto simp: list_all_iff)
  have "ds ! ((idx + 1) mod length ds) \<in> set ds" using Cons.prems(2) by simp
  then have wn: "well_formed env (ds ! ((idx + 1) mod length ds))"
    using Cons.prems(1) by (auto simp: list_all_iff)
  have ih: "fst (build_loop env delay ds idx' sts' rest w') = Some e \<Longrightarrow>
      \<exists>t. e = ValueError (DuplicateStartTime t)" for idx' sts' w'
    using Cons.IH [of idx' sts' w'] Cons.prems by simp
  show ?case
    using Cons.prems(4) wx wn ih
    by (auto simp: well_formed_def start_of_def Let_def split: sum.splits option.splits if_splits)
qed

lemma initialize_build_error:
  assumes "\<And>w. fst (build_daytimes env
                     (case arg_delay a of Some d \<Rightarrow> d | None \<Rightarrow> DEFAULT_DELAY)
                     (case arg_daytimes a of Some ds \<Rightarrow> ds | None \<Rightarrow> DEFAULT_DAYTIMES) w) \<noteq> None"
  shows "fst (initialize env a) \<noteq> None"
proof (cases "lights (init_state env a) = [] \<or> sensors_motion (init_state env a) = []")
  case True
  then show ?thesis by (simp add: initialize_def Let_def)
next
  case False
  let ?w0 = "init_state env a"
  obtain hs ht w1 where o1: "optional_sensors env ''humidity'' KEYWORD_HUMIDITY (arg_humidity a)
                (thr_humidity ?w0) ?w0 = (hs, ht, w1)"
    using prod_cases3 by blast
  obtain ils ilt w2 where o2: "optional_sensors env ''illuminance'' KEYWORD_ILLUMINANCE (arg_illuminance a)
                     (thr_illuminance w1) w1 = (ils, ilt, w2)"
    using prod_cases3 by blast
  define w3 where "w3 = w2\<lparr>sensors_humidity := hs, thr_humidity := ht,
                               sensors_illuminance := ils, thr_illuminance := ilt\<rparr>"
  obtain r w4 where b: "build_daytimes env
                             (case arg_delay a of Some d \<Rightarrow> d | None \<Rightarrow> DEFAULT_DELAY)
                             (case arg_daytimes a of Some ds \<Rightarrow> ds | None \<Rightarrow> DEFAULT_DAYTIMES)
                             w3 = (r, w4)" by force
  have "r \<noteq> None" using assms [of w3] b by simp
  then show ?thesis
    using False o1 o2 b by (auto simp: initialize_def Let_def w3_def split: option.splits)
qed

lemma build_loop_no_light_error:
  "fst (build_loop env delay ds idx sts rest w) \<noteq> Some (ValueError (InvalidBrightnessScene l))"
  by (induction rest arbitrary: idx sts w)
     (auto simp: Let_def hue_group_check_def split: sum.splits option.splits light_value.splits if_splits)

lemma listen_loop_error:
  "fst (listen_loop ss w) = Some e \<Longrightarrow> e = KeyError ''delay''"
proof (induction ss arbitrary: w)
  case Nil
  then show ?case by simp
next
  case (Cons s ss)
  have r: "refresh_timer w' = (Some e', w'') \<Longrightarrow> e' = KeyError ''delay''" for w' e' w''
    by (auto simp: refresh_timer_def Let_def split: option.splits if_splits)
  show ?case
  proof (cases "refresh_timer (register_listeners s w)")
    case (Pair r' w2)
    then show ?thesis
      using Cons.prems Cons.IH [of w2] r [of "register_listeners s w" _ w2]
      by (cases r') auto
  qed
qed

lemma listen_loop_active:
  "active w = Some d \<Longrightarrow>
   fst (listen_loop ss w) = None \<and> active (snd (listen_loop ss w)) = Some d"
proof (induction ss arbitrary: w)
  case Nil
  then show ?case by simp
next
  case (Cons s ss)
  have a1: "active (register_listeners s w) = Some d"
    using Cons.prems by (simp add: register_listeners_def)
  have "fst (refresh_timer (register_listeners s w)) = None"
    using a1 by (simp add: refresh_timer_def Let_def)
  then obtain w2 where r: "refresh_timer (register_listeners s w) = (None, w2)"
    by (cases "refresh_timer (register_listeners s w)") simp
  have "active w2 = Some d"
    using refresh_fields(2) [of "register_listeners s w"] r a1 by simp
  then show ?case
    using r Cons.IH [of w2] by simp
qed

lemma initialize_no_light_error:
  "fst (initialize env a) \<noteq> Some (ValueError (InvalidBrightnessScene l))"
proof (cases "lights (init_state env a) = [] \<or> sensors_motion (init_state env a) = []")
  case True
  then show ?thesis by (simp add: initialize_def Let_def)
next
  case False
  let ?w0 = "init_state env a"
  obtain hs ht w1 where o1: "optional_sensors env ''humidity'' KEYWORD_HUMIDITY (arg_humidity a)
                (thr_humidity ?w0) ?w0 = (hs, ht, w1)"
    using prod_cases3 by blast
  obtain ils ilt w2 where o2: "optional_sensors env ''illuminance'' KEYWORD_ILLUMINANCE (arg_illuminance a)
                     (thr_illuminance w1) w1 = (ils, ilt, w2)"
    using prod_cases3 by blast
  define w3 where "w3 = w2\<lparr>sensors_humidity := hs, thr_humidity := ht,
                               sensors_illuminance := ils, thr_illuminance := ilt\<rparr>"
  obtain r w4 where b: "build_daytimes env
                             (case arg_delay a of Some d \<Rightarrow> d | None \<Rightarrow> DEFAULT_DELAY)
                             (case arg_daytimes a of Some ds \<Rightarrow> ds | None \<Rightarrow> DEFAULT_DAYTIMES)
                             w3 = (r, w4)" by force
  have r: "r \<noteq> Some (ValueError (InvalidBrightnessScene l))"
    using build_loop_no_light_error [of env _ _ 0 "{}" _ w3 l] b
    by (metis build_daytimes_def fst_conv)
  have ll: "fst (listen_loop (sensors_motion w4) w4) \<noteq> Some (ValueError (InvalidBrightnessScene l))"
    using listen_loop_error by blast
  show ?thesis
    using False o1 o2 b r ll by (auto simp: initialize_def Let_def w3_def split: option.splits)
qed

lemma build_odd_entry:
  "build_daytimes (demo_env [] 28800) 150
     [\<lparr>rd_starttime = Some ''05:30'', rd_name = Some ''morning'',
       rd_light = Some (LInt 25), rd_delay = None\<rparr>,
      \<lparr>rd_starttime = Some ''07:30'', rd_name = Some ''odd'',
       rd_light = Some LOther, rd_delay = None\<rparr>] w =
   (None, w\<lparr>active := Some \<lparr>dt_daytime = ''odd'', dt_delay = 150, dt_starttime = 27000,
                               dt_light_setting = LOther, dt_is_hue_group = False\<rparr>,
            args_active_daytime := Some ''odd'',
            daily := daily w @
              [(19800, \<lparr>dt_daytime = ''morning'', dt_delay = 150, dt_starttime = 19800,
                        dt_light_setting = LInt 25, dt_is_hue_group = False\<rparr>),
               (27000, \<lparr>dt_daytime = ''odd'', dt_delay = 150, dt_starttime = 27000,
                        dt_light_setting = LOther, dt_is_hue_group = False\<rparr>)]\<rparr>)"
  by (simp add: build_daytimes_def hue_group_check_def dt_light_of_def demo_env_def Let_def
      now_is_between_def switch_daytime_def mk_daytime_def dt_name_of_def dt_delay_of_def
      DEFAULT_LIGHT_SETTING_def)

lemma init_odd_state: "init_state (demo_env [] 28800) odd_light_args = demo_state\<lparr>active := None, handles := {}, timers := Map.empty, next_handle := 0, listeners := [], args_active_daytime := None\<rparr>"
  by (simp add: init_state_def odd_light_args_def demo_args_def demo_state_def demo_env_def Let_def)

lemma init_odd:
  "initialize (demo_env [] 28800) odd_light_args
     = (None, demo_state\<lparr>active := Some \<lparr>dt_daytime = ''odd'', dt_delay = 150, dt_starttime = 27000,
                                            dt_light_setting = LOther, dt_is_hue_group = False\<rparr>,
                 daily :=
                   [(19800, \<lparr>dt_daytime = ''morning'', dt_delay = 150, dt_starttime = 19800,
                             dt_light_setting = LInt 25, dt_is_hue_group = False\<rparr>),
                    (27000, \<lparr>dt_daytime = ''odd'', dt_delay = 150, dt_starttime = 27000,
                             dt_light_setting = LOther, dt_is_hue_group = False\<rparr>)],
                 args_active_daytime := Some ''odd''\<rparr>)"
proof -
  have l: "lights (demo_state\<lparr>active := None, handles := {}, timers := Map.empty, next_handle := 0, listeners := [], args_active_daytime := None\<rparr>) \<noteq> []"
     "sensors_motion (demo_state\<lparr>active := None, handles := {}, timers := Map.empty, next_handle := 0, listeners := [], args_active_daytime := None\<rparr>) = [''binary_sensor.motion_sensor_kitchen'']"
     "thr_humidity demo_state = None" "thr_illuminance demo_state = None" "motion_on demo_state = None" "motion_off demo_state = None"
     "daily demo_state = []"
    by (simp_all add: demo_state_def)
  have a: "arg_humidity odd_light_args = None" "arg_illuminance odd_light_args = None" "arg_delay odd_light_args = None"
      "arg_daytimes odd_light_args = Some
         [\<lparr>rd_starttime = Some ''05:30'', rd_name = Some ''morning'',
           rd_light = Some (LInt 25), rd_delay = None\<rparr>,
          \<lparr>rd_starttime = Some ''07:30'', rd_name = Some ''odd'',
           rd_light = Some LOther, rd_delay = None\<rparr>]"
    by (simp_all add: odd_light_args_def demo_args_def)
  have f: "find_sensors (demo_env [] 28800) k = []" for k by (simp add: demo_env_def)
  show ?thesis
    apply (simp add: initialize_def init_odd_state l a f optional_sensors_def Let_def DEFAULT_DELAY_def build_odd_entry truthy_str_def register_listeners_def)
    apply (simp add: demo_state_def refresh_timer_def Let_def cancel_handles_def run_in_add_def fun_eq_iff)
    done
qed

lemma in_interval_inner:
  assumes "sorted_wrt (<) ts" and "Suc i < length ts"
  shows "in_interval now ts i = (ts ! i \<le> now \<and> now < ts ! Suc i)"
proof -
  have "ts ! i < ts ! Suc i" using assms by (simp add: sorted_wrt_nth_less)
  then show ?thesis using assms(2) by (simp add: in_interval_def half_open_def)
qed

lemma in_interval_last:
  assumes "sorted_wrt (<) ts" and "ts \<noteq> []"
  shows "in_interval now ts (length ts - 1) = (ts ! (length ts - 1) \<le> now \<or> now < ts ! 0)"
proof -
  have "\<not> ts ! (length ts - 1) < ts ! 0"
  proof (cases "length ts - 1 = 0")
    case True
    then show ?thesis by simp
  next
    case False
    then have "ts ! 0 < ts ! (length ts - 1)" using assms by (simp add: sorted_wrt_nth_less)
    then show ?thesis by simp
  qed
  moreover have "(length ts - 1 + 1) mod length ts = 0" using assms(2) by simp
  ultimately show ?thesis by (simp add: in_interval_def half_open_def)
qed

lemma sorted_last_le:
  assumes "sorted_wrt (<) (ts::nat list)" and "ts ! 0 \<le> now" and "ts \<noteq> []"
  shows "\<exists>i<length ts. ts ! i \<le> now \<and> (\<forall>j. i < j \<and> j < length ts \<longrightarrow> now < ts ! j)"
proof -
  let ?P = "\<lambda>i. i < length ts \<and> ts ! i \<le> now"
  have p0: "?P 0" using assms by simp
  have bnd: "\<forall>y. ?P y \<longrightarrow> y \<le> length ts" by simp
  have g: "?P (Greatest ?P)" using GreatestI_nat [of ?P 0 "length ts"] p0 bnd by blast
  have m: "?P j \<Longrightarrow> j \<le> Greatest ?P" for j
    using Greatest_le_nat [of ?P j "length ts"] bnd by blast
  have "now < ts ! j" if "Greatest ?P < j" and "j < length ts" for j
  proof (rule ccontr)
    assume "\<not> now < ts ! j"
    then have "?P j" using that by simp
    then have "j \<le> Greatest ?P" by (rule m)
    then show False using that by simp
  qed
  then show ?thesis using g by blast
qed



lemma sorted_unique_interval:
  assumes s: "sorted_wrt (<) (ts::nat list)" and ne: "ts \<noteq> []"
  shows "\<exists>i<length ts. in_interval now ts i \<and> (\<forall>j. j < length ts \<and> in_interval now ts j \<longrightarrow> j = i)"
proof -
  let ?n = "length ts"
  have n: "0 < ?n" using ne by simp
  have mono: "ts ! i < ts ! j" if "i < j" "j < ?n" for i j
    using s that by (simp add: sorted_wrt_nth_less)
  have mono_le: "ts ! i \<le> ts ! j" if "i \<le> j" "j < ?n" for i j
  proof (cases "i = j")
    case True
    then show ?thesis by simp
  next
    case False
    then have "i < j" using that by simp
    then show ?thesis using mono [of i j] that by simp
  qed
  have inner: "in_interval now ts j = (ts ! j \<le> now \<and> now < ts ! Suc j)" if "Suc j < ?n" for j
    using that by (rule in_interval_inner [OF s])
  have lst: "in_interval now ts (?n - 1) = (ts ! (?n - 1) \<le> now \<or> now < ts ! 0)"
    by (rule in_interval_last [OF s ne])
  show ?thesis
  proof (cases "now < ts ! 0")
    case True
    have others: "\<not> in_interval now ts j" if "j < ?n" "j \<noteq> ?n - 1" for j
    proof -
      have sj: "Suc j < ?n" using that by simp
      have "ts ! 0 \<le> ts ! j" using mono_le [of 0 j] that by simp
      then have "\<not> ts ! j \<le> now" using True by simp
      then show ?thesis unfolding inner [OF sj] by simp
    qed
    have l: "in_interval now ts (?n - 1)" unfolding lst using True by simp
    have u: "\<forall>j. j < ?n \<and> in_interval now ts j \<longrightarrow> j = ?n - 1"
      using others by blast
    have "?n - 1 < ?n" using n by simp
    then show ?thesis using l u by blast
  next
    case False
    then have "ts ! 0 \<le> now" by simp
    from sorted_last_le [OF s this ne]
    obtain i where i: "i < ?n" "ts ! i \<le> now" "\<forall>j. i < j \<and> j < ?n \<longrightarrow> now < ts ! j"
      by blast
    have ii: "in_interval now ts i"
    proof (cases "Suc i < ?n")
      case True
      then have "now < ts ! Suc i" using i(3) by simp
      then show ?thesis unfolding inner [OF True] using i(2) by simp
    next
      case False
      then have "i = ?n - 1" using i(1) by simp
      then show ?thesis using lst i(2) by simp
    qed
    have "j = i" if "j < ?n" "in_interval now ts j" for j
    proof (rule ccontr)
      assume jn: "j \<noteq> i"
      show False
      proof (cases "Suc j < ?n")
        case True
        have a: "ts ! j \<le> now" "now < ts ! Suc j" using that(2) unfolding inner [OF True] by simp_all
        have "\<not> i < j" using i(3) a(1) that(1) by force
        then have "Suc j \<le> i" using jn by simp
        then have "ts ! Suc j \<le> ts ! i" using mono_le [of "Suc j" i] i(1) by simp
        then show False using a i(2) by simp
      next
        case False
        then have j: "j = ?n - 1" using that by simp
        then have "i < j" using jn i(1) by simp
        then have "now < ts ! j" using i(3) that(1) by simp
        then have "now < ts ! (?n - 1)" using j by simp
        moreover have "in_interval now ts (?n - 1)" using that(2) j by simp
        ultimately show False unfolding lst using \<open>\<not> now < ts ! 0\<close> by simp
      qed
    qed
    then have "\<forall>j. j < ?n \<and> in_interval now ts j \<longrightarrow> j = i" by blast
    then show ?thesis using ii i(1) by blast
  qed
qed

lemma starts_nth:
  assumes "map (start_of env) ds = map Some ts" and "i < length ds"
  shows "start_of env (ds ! i) = Some (ts ! i)"
proof -
  have "map (start_of env) ds ! i = map Some ts ! i" using assms(1) by simp
  moreover have "length ts = length ds" using assms(1) by (metis length_map)
  ultimately show ?thesis using assms(2) by simp
qed

lemma well_formed_nth:
  "list_all (well_formed env) ds \<Longrightarrow> i < length ds \<Longrightarrow> well_formed env (ds ! i)"
  by (simp add: list_all_length)

lemma build_step:
  assumes wf: "list_all (well_formed env) ds"
    and st: "map (start_of env) ds = map Some ts"
    and di: "distinct ts"
    and idx: "idx < length ds"
  shows "build_loop env delay ds idx (set (take idx ts)) (drop idx ds) w
       = build_loop env delay ds (Suc idx) (set (take (Suc idx) ts)) (drop (Suc idx) ds)
           (build_round env delay ds ts idx w)"
proof -
  let ?k = "Suc idx mod length ds"
  have len: "length ts = length ds" using st by (metis length_map)
  have pos: "0 < length ds" using idx by (cases ds) simp_all
  have k: "?k < length ds" using pos by (rule mod_less_divisor)
  have dr: "drop idx ds = ds ! idx # drop (Suc idx) ds"
    using idx by (simp add: Cons_nth_drop_Suc)
  have hue: "hue_group_check (dt_light_of (ds ! idx)) = Inr False"
    using well_formed_nth [OF wf idx] by (simp add: well_formed_def)
  have so: "start_of env (ds ! idx) = Some (ts ! idx)" by (rule starts_nth [OF st idx])
  then obtain s where s: "rd_starttime (ds ! idx) = Some s" "parse_time env (s @ '':00'') = Some (ts ! idx)"
    by (auto simp: start_of_def split: option.splits)
  have nx: "fromisoformat env (str_opt (rd_starttime (ds ! ?k))) = Some (ts ! ?k)"
    using well_formed_nth [OF wf k] starts_nth [OF st k] by (simp add: well_formed_def)
  have fresh: "ts ! idx \<notin> set (take idx ts)"
  proof
    assume "ts ! idx \<in> set (take idx ts)"
    then obtain j where "j < idx" "ts ! j = ts ! idx"
      using idx len by (auto simp: in_set_conv_nth)
    then show False using di idx len by (simp add: nth_eq_iff_index_eq)
  qed
  have tk: "set (take (Suc idx) ts) = insert (ts ! idx) (set (take idx ts))"
    using idx len by (simp add: take_Suc_conv_app_nth)
  show ?thesis
    unfolding dr
    by (simp add: hue s nx fresh tk len build_round_def Let_def del: take_Suc)
qed

lemma active_build_round:
  "active (build_round env delay ds ts idx w)
     = (if now_is_between env (ts ! idx) (ts ! ((idx + 1) mod length ts)) then Some (mk_daytime delay idx (ds ! idx) (ts ! idx) False)
        else active w)"
  by (simp add: build_round_def Let_def switch_daytime_def)

lemma build_rest_none:
  assumes wf: "list_all (well_formed env) ds"
    and st: "map (start_of env) ds = map Some ts"
    and di: "distinct ts"
  shows "idx \<le> length ds \<Longrightarrow>
         (\<forall>j. idx \<le> j \<and> j < length ds \<longrightarrow> \<not> now_is_between env (ts ! j) (ts ! ((j + 1) mod length ts))) \<Longrightarrow>
         fst (build_loop env delay ds idx (set (take idx ts)) (drop idx ds) w) = None
         \<and> active (snd (build_loop env delay ds idx (set (take idx ts)) (drop idx ds) w)) = active w"
proof (induction "length ds - idx" arbitrary: idx w)
  case 0
  then show ?case by simp
next
  case (Suc k)
  then have idx: "idx < length ds" by simp
  have a: "active (build_round env delay ds ts idx w) = active w"
    using Suc.prems(2) idx by (simp add: active_build_round)
  have "k = length ds - Suc idx" using Suc.hyps(2) by simp
  from Suc.hyps(1) [OF this, of "build_round env delay ds ts idx w"]
  show ?case
    unfolding build_step [OF wf st di idx] using idx Suc.prems(2) a by simp
qed

lemma build_rest_last:
  assumes wf: "list_all (well_formed env) ds"
    and st: "map (start_of env) ds = map Some ts"
    and di: "distinct ts"
    and i: "i < length ds" "now_is_between env (ts ! i) (ts ! ((i + 1) mod length ts))"
    and after: "\<forall>j. i < j \<and> j < length ds \<longrightarrow> \<not> now_is_between env (ts ! j) (ts ! ((j + 1) mod length ts))"
  shows "idx \<le> i \<Longrightarrow>
         fst (build_loop env delay ds idx (set (take idx ts)) (drop idx ds) w) = None
         \<and> active (snd (build_loop env delay ds idx (set (take idx ts)) (drop idx ds) w))
             = Some (mk_daytime delay i (ds ! i) (ts ! i) False)"
proof (induction "i - idx" arbitrary: idx w)
  case 0
  then have e: "idx = i" by simp
  have "\<forall>j. Suc i \<le> j \<and> j < length ds \<longrightarrow> \<not> now_is_between env (ts ! j) (ts ! ((j + 1) mod length ts))"
    using after by simp
  from build_rest_none [OF wf st di _ this, of delay "build_round env delay ds ts i w"]
  show ?case
    unfolding e build_step [OF wf st di i(1)] using i by (simp add: active_build_round)
next
  case (Suc k)
  then have idx: "idx < i" by simp
  then have idx': "idx < length ds" using i(1) by simp
  have "k = i - Suc idx" using Suc.hyps(2) by simp
  from Suc.hyps(1) [OF this, of "build_round env delay ds ts idx w"]
  show ?case
    unfolding build_step [OF wf st di idx'] using idx by simp
qed

lemma initialize_active:
  assumes ne: "lights (init_state env a) \<noteq> []" "sensors_motion (init_state env a) \<noteq> []"
    and b: "\<And>w. fst (build_daytimes env
                     (case arg_delay a of Some d \<Rightarrow> d | None \<Rightarrow> DEFAULT_DELAY)
                     (case arg_daytimes a of Some ds \<Rightarrow> ds | None \<Rightarrow> DEFAULT_DAYTIMES) w) = None
               \<and> active (snd (build_daytimes env
                     (case arg_delay a of Some d \<Rightarrow> d | None \<Rightarrow> DEFAULT_DELAY)
                     (case arg_daytimes a of Some ds \<Rightarrow> ds | None \<Rightarrow> DEFAULT_DAYTIMES) w)) = Some D"
  shows "fst (initialize env a) = None \<and> active (snd (initialize env a)) = Some D"
proof -
  let ?w0 = "init_state env a"
  obtain hs ht w1 where o1: "optional_sensors env ''humidity'' KEYWORD_HUMIDITY (arg_humidity a)
                (thr_humidity ?w0) ?w0 = (hs, ht, w1)"
    using prod_cases3 by blast
  obtain ils ilt w2 where o2: "optional_sensors env ''illuminance'' KEYWORD_ILLUMINANCE (arg_illuminance a)
                     (thr_illuminance w1) w1 = (ils, ilt, w2)"
    using prod_cases3 by blast
  define w3 where "w3 = w2\<lparr>sensors_humidity := hs, thr_humidity := ht,
                               sensors_illuminance := ils, thr_illuminance := ilt\<rparr>"
  obtain r w4 where bd: "build_daytimes env
                             (case arg_delay a of Some d \<Rightarrow> d | None \<Rightarrow> DEFAULT_DELAY)
                             (case arg_daytimes a of Some ds \<Rightarrow> ds | None \<Rightarrow> DEFAULT_DAYTIMES)
                             w3 = (r, w4)" by force
  have r: "r = None" "active w4 = Some D" using b [of w3] bd by simp_all
  have bd': "build_daytimes env
               (case arg_delay a of Some d \<Rightarrow> d | None \<Rightarrow> DEFAULT_DELAY)
               (case arg_daytimes a of Some ds \<Rightarrow> ds | None \<Rightarrow> DEFAULT_DAYTIMES)
               w3 = (None, w4)" using bd r(1) by simp
  have "initialize env a = listen_loop (sensors_motion w4) w4"
    using ne o1 o2 bd' unfolding w3_def by (simp add: initialize_def Let_def)
  then show ?thesis
    using listen_loop_active [OF r(2), of "sensors_motion w4"] by simp
qed

lemma host_inner:
  assumes "sorted_wrt (<) ts" and "Suc j < length ts"
  shows "now_is_between env (ts ! j) (ts ! ((j + 1) mod length ts))
           = (ts ! j \<le> now_tod env \<and> now_tod env \<le> ts ! Suc j)"
proof -
  have "ts ! j < ts ! Suc j" using assms by (simp add: sorted_wrt_nth_less)
  then show ?thesis using assms(2) by (simp add: now_is_between_def)
qed

lemma host_last:
  assumes "sorted_wrt (<) ts" and "1 < length ts"
  shows "now_is_between env (ts ! (length ts - 1)) (ts ! ((length ts - 1 + 1) mod length ts))
           = (ts ! (length ts - 1) \<le> now_tod env \<or> now_tod env < ts ! 0)"
proof -
  have "ts ! 0 < ts ! (length ts - 1)" using assms by (simp add: sorted_wrt_nth_less)
  moreover have "length ts - 1 + 1 = length ts" using assms(2) by arith
  then have "(length ts - 1 + 1) mod length ts = 0" by (simp only: mod_self)
  ultimately show ?thesis by (simp only: now_is_between_def if_True)
qed

lemma host_owner:
  assumes s: "sorted_wrt (<) (ts::nat list)" and n: "1 < length ts"
    and i: "i < length ts" and own: "in_interval (now_tod env) ts i"
  shows "now_is_between env (ts ! i) (ts ! ((i + 1) mod length ts))
         \<and> (\<forall>j. i < j \<and> j < length ts
                \<longrightarrow> \<not> now_is_between env (ts ! j) (ts ! ((j + 1) mod length ts)))"
proof -
  let ?n = "length ts"
  let ?now = "now_tod env"
  have ne: "ts \<noteq> []" using n by auto
  have mono_le: "ts ! a \<le> ts ! b" if "a \<le> b" "b < ?n" for a b
  proof (cases "a = b")
    case True
    then show ?thesis by simp
  next
    case False
    then have "a < b" using that by simp
    then have "ts ! a < ts ! b" using s that by (simp add: sorted_wrt_nth_less)
    then show ?thesis by simp
  qed
  have first: "now_is_between env (ts ! i) (ts ! ((i + 1) mod ?n))"
  proof (cases "Suc i < ?n")
    case True
    have "ts ! i \<le> ?now \<and> ?now < ts ! Suc i"
      using own unfolding in_interval_inner [OF s True] .
    then show ?thesis unfolding host_inner [OF s True] by simp
  next
    case False
    then have e: "i = ?n - 1" using i by simp
    have "ts ! (?n - 1) \<le> ?now \<or> ?now < ts ! 0"
      using own unfolding e in_interval_last [OF s ne] .
    then have "now_is_between env (ts ! (?n - 1)) (ts ! ((?n - 1 + 1) mod ?n))"
      unfolding host_last [OF s n] .
    then show ?thesis using e by simp
  qed
  have rest: "\<not> now_is_between env (ts ! j) (ts ! ((j + 1) mod ?n))" if "i < j" "j < ?n" for j
  proof -
    have si: "Suc i < ?n" using that by simp
    have o: "ts ! i \<le> ?now" "?now < ts ! Suc i"
      using own unfolding in_interval_inner [OF s si] by simp_all
    have le: "ts ! Suc i \<le> ts ! j" using mono_le [of "Suc i" j] that by simp
    show ?thesis
    proof (cases "Suc j < ?n")
      case True
      show ?thesis unfolding host_inner [OF s True] using o le by simp
    next
      case False
      then have e: "j = ?n - 1" using that by simp
      have "ts ! 0 \<le> ts ! i" using mono_le [of 0 i] i by simp
      then have "\<not> (ts ! (?n - 1) \<le> ?now \<or> ?now < ts ! 0)" using o le e by simp
      then have "\<not> now_is_between env (ts ! (?n - 1)) (ts ! ((?n - 1 + 1) mod ?n))"
        unfolding host_last [OF s n] .
      then show ?thesis using e by simp
    qed
  qed
  show ?thesis using first rest by blast
qed

lemma build_single:
  assumes "well_formed env d" and "start_of env d = Some t"
  shows "build_daytimes env delay [d] w = (None, build_round env delay [d] [t] 0 w)"
  using build_step [of env "[d]" "[t]" 0 delay w] assms by (simp add: build_daytimes_def)

lemma active_build_single:
  "active (build_round env delay [d] [t] 0 w)
     = (if now_tod env = t then Some (mk_daytime delay 0 d t False) else active w)"
  by (auto simp: active_build_round now_is_between_def)

lemma optional_sensors_active:
  "optional_sensors env ty kw g t w = (xs, t', w') \<Longrightarrow> active w' = active w"
  by (auto simp: optional_sensors_def Let_def split: if_splits)

lemma config_sensors_motion:
  "config_of w = config_of w' \<Longrightarrow> sensors_motion w = sensors_motion w'"
  by (simp add: config_of_def)

lemma listen_loop_inactive:
  "active w = None \<Longrightarrow> ss \<noteq> [] \<Longrightarrow>
   fst (listen_loop ss w) = Some (KeyError ''delay'') \<and> active (snd (listen_loop ss w)) = None"
  by (cases ss)
     (simp_all add: refresh_timer_def Let_def register_listeners_def cancel_handles_def)

lemma initialize_inactive:
  assumes ne: "lights (init_state env a) \<noteq> []" "sensors_motion (init_state env a) \<noteq> []"
    and b: "\<And>w. active w = None \<Longrightarrow>
               fst (build_daytimes env
                     (case arg_delay a of Some d \<Rightarrow> d | None \<Rightarrow> DEFAULT_DELAY)
                     (case arg_daytimes a of Some ds \<Rightarrow> ds | None \<Rightarrow> DEFAULT_DAYTIMES) w) = None
               \<and> active (snd (build_daytimes env
                     (case arg_delay a of Some d \<Rightarrow> d | None \<Rightarrow> DEFAULT_DELAY)
                     (case arg_daytimes a of Some ds \<Rightarrow> ds | None \<Rightarrow> DEFAULT_DAYTIMES) w)) = None"
  shows "fst (initialize env a) = Some (KeyError ''delay'') \<and> active (snd (initialize env a)) = None"
proof -
  let ?w0 = "init_state env a"
  obtain hs ht w1 where o1: "optional_sensors env ''humidity'' KEYWORD_HUMIDITY (arg_humidity a)
                (thr_humidity ?w0) ?w0 = (hs, ht, w1)"
    using prod_cases3 by blast
  obtain ils ilt w2 where o2: "optional_sensors env ''illuminance'' KEYWORD_ILLUMINANCE (arg_illuminance a)
                     (thr_illuminance w1) w1 = (ils, ilt, w2)"
    using prod_cases3 by blast
  define w3 where "w3 = w2\<lparr>sensors_humidity := hs, thr_humidity := ht,
                               sensors_illuminance := ils, thr_illuminance := ilt\<rparr>"
  have a0: "active ?w0 = None" by (simp add: init_state_def Let_def)
  have a3: "active w3 = None"
    using optional_sensors_active [OF o1] optional_sensors_active [OF o2] a0 by (simp add: w3_def)
  have m3: "sensors_motion w3 = sensors_motion ?w0"
    using config_sensors_motion [OF optional_sensors_config [OF o1]]
          config_sensors_motion [OF optional_sensors_config [OF o2]]
    by (simp add: w3_def)
  obtain r w4 where bd: "build_daytimes env
                             (case arg_delay a of Some d \<Rightarrow> d | None \<Rightarrow> DEFAULT_DELAY)
                             (case arg_daytimes a of Some ds \<Rightarrow> ds | None \<Rightarrow> DEFAULT_DAYTIMES)
                             w3 = (r, w4)" by force
  have r: "r = None" "active w4 = None" using b [OF a3] bd by simp_all
  have bd': "build_daytimes env
               (case arg_delay a of Some d \<Rightarrow> d | None \<Rightarrow> DEFAULT_DELAY)
               (case arg_daytimes a of Some ds \<Rightarrow> ds | None \<Rightarrow> DEFAULT_DAYTIMES)
               w3 = (None, w4)" using bd r(1) by simp
  have c4: "config_of w4 = config_of w3"
    using config_build_loop [of env _ _ 0 "{}" _ w3] bd by (metis build_daytimes_def snd_conv)
  have m4: "sensors_motion w4 \<noteq> []"
    using config_sensors_motion [OF c4] m3 ne(2) by simp
  have "initialize env a = listen_loop (sensors_motion w4) w4"
    using ne o1 o2 bd' unfolding w3_def by (simp add: initialize_def Let_def)
  then show ?thesis
    using listen_loop_inactive [OF r(2) m4] by simp
qed

section \<open>The claims\<close>

text \<open>
  C1. Starting from \<^verbatim>\<open>initialize\<close>, after any sequence of callbacks (motion detected,
  motion cleared, motion event, timer expiry, daytime switch, \<^verbatim>\<open>refresh_timer\<close>) the
  set \<^verbatim>\<open>self.handles\<close> has at most one element. Right after \<^verbatim>\<open>refresh_timer\<close>, in
  any state, it has exactly one element when the active delay is not 0 and none when the
  delay is 0 (and none when no daytime is active yet, where the method raises).
\<close>

theorem handles_at_most_one:
  "finite (handles (run evs (snd (initialize env0 a))))
   \<and> card (handles (run evs (snd (initialize env0 a)))) \<le> 1
   \<and> card (handles (snd (refresh_timer w))) =
        (case active w of None \<Rightarrow> 0 | Some d \<Rightarrow> if dt_delay d \<noteq> 0 then 1 else 0)
   \<and> active (snd (refresh_timer w)) = active w"
proof -
  have "at_most_one (handles (run evs (snd (initialize env0 a))))"
    by (rule amo_run) (rule amo_initialize)
  moreover have "active (snd (refresh_timer w)) = active w"
    by (simp add: refresh_timer_def Let_def cancel_handles_def run_in_add_def split: option.splits)
  ultimately show ?thesis
    by (simp add: at_most_one_def handles_refresh_timer split: option.splits)
qed


theorem handles_at_most_one_witness:
  "finite (handles (run [(demo_env [] 28800, MotionCleared), (demo_env [] 28800, TimerExpired)]
                     (snd (initialize (demo_env [] 28800) demo_args))))
   \<and> card (handles (run [(demo_env [] 28800, MotionCleared), (demo_env [] 28800, TimerExpired)]
                     (snd (initialize (demo_env [] 28800) demo_args)))) \<le> 1
   \<and> card (handles (snd (refresh_timer demo_state))) = 1
   \<and> active (snd (refresh_timer demo_state)) = active demo_state"
  using handles_at_most_one
          [of "[(demo_env [] 28800, MotionCleared), (demo_env [] 28800, TimerExpired)]"
              "demo_env [] 28800" demo_args demo_state]
  by (simp add: demo_state_def)

text \<open>
  C2, as amended. While a disable switch reads \<^verbatim>\<open>"off"\<close> or has a false state,
  \<^verbatim>\<open>motion_event\<close> returns after its check: it makes no service call and changes
  nothing of the instance but the log. The state-change callbacks are not behind the check:
  \<^verbatim>\<open>motion_detected\<close> makes no service call and keeps the active setting, but it has
  cancelled the timers and emptied the handle set; \<^verbatim>\<open>motion_cleared\<close> makes no service
  call and keeps the active setting.
\<close>

theorem disabled_motion_ignored:
  assumes "disabled_by env (disable_switch_entities w) = Some e"
  shows "motion_event env event entity w
           = (None, w\<lparr>logs := logs w @ [LogReceivedEvent event entity, LogDisabled e]\<rparr>)
         \<and> calls (snd (motion_detected env entity w)) = calls w
         \<and> active (snd (motion_detected env entity w)) = active w
         \<and> handles (snd (motion_detected env entity w)) = {}
         \<and> calls (snd (motion_cleared env w)) = calls w
         \<and> active (snd (motion_cleared env w)) = active w"
proof -
  have "is_disabled env (lg (LogReceivedEvent event entity) w)
          = (True, lg (LogDisabled e) (lg (LogReceivedEvent event entity) w))"
    using assms by (simp add: is_disabled_Some)
  then have "motion_event env event entity w
           = (None, w\<lparr>logs := logs w @ [LogReceivedEvent event entity, LogDisabled e]\<rparr>)"
    by (simp add: motion_event_def lg_def)
  then show ?thesis
    by (simp add: motion_detected_def motion_cleared_def)
qed

theorem disabled_motion_ignored_witness:
  "disabled_by (demo_env [(''input_boolean.automoli'', ''off'')] 28800)
     (disable_switch_entities (demo_state\<lparr>disable_switch_entities := [''input_boolean.automoli'']\<rparr>))
     = Some ''input_boolean.automoli''
   \<and> motion_event (demo_env [(''input_boolean.automoli'', ''off'')] 28800) ''xiaomi_aqara.motion''
       ''binary_sensor.motion_sensor_kitchen''
       (demo_state\<lparr>disable_switch_entities := [''input_boolean.automoli'']\<rparr>)
     = (None, demo_state\<lparr>disable_switch_entities := [''input_boolean.automoli''],
                logs := [LogReceivedEvent ''xiaomi_aqara.motion'' ''binary_sensor.motion_sensor_kitchen'',
                        LogDisabled ''input_boolean.automoli'']\<rparr>)"
proof -
  have h: "disabled_by (demo_env [(''input_boolean.automoli'', ''off'')] 28800)
     (disable_switch_entities (demo_state\<lparr>disable_switch_entities := [''input_boolean.automoli'']\<rparr>))
     = Some ''input_boolean.automoli''"
    by (simp add: demo_env_def)
  show ?thesis
    using h disabled_motion_ignored [OF h, of "''xiaomi_aqara.motion''" "''binary_sensor.motion_sensor_kitchen''"]
    by (simp add: demo_state_def)
qed

text \<open>
  C2 as stated fails on the state-change path: with the disable switch off and one timer
  pending, \<^verbatim>\<open>motion_detected\<close> cancels the timer and empties the handle set.
\<close>

theorem disabled_motion_ignored_counterexample:
  "disabled_by (demo_env [(''input_boolean.automoli'', ''off'')] 28800)
     (disable_switch_entities (demo_state\<lparr>disable_switch_entities := [''input_boolean.automoli'']\<rparr>))
     = Some ''input_boolean.automoli''
   \<and> handles (demo_state\<lparr>disable_switch_entities := [''input_boolean.automoli'']\<rparr>) = {0}
   \<and> timers (demo_state\<lparr>disable_switch_entities := [''input_boolean.automoli'']\<rparr>) 0 = Some 150
   \<and> handles (snd (motion_detected (demo_env [(''input_boolean.automoli'', ''off'')] 28800)
                     ''binary_sensor.motion_sensor_kitchen''
                     (demo_state\<lparr>disable_switch_entities := [''input_boolean.automoli'']\<rparr>))) = {}
   \<and> timers (snd (motion_detected (demo_env [(''input_boolean.automoli'', ''off'')] 28800)
                     ''binary_sensor.motion_sensor_kitchen''
                     (demo_state\<lparr>disable_switch_entities := [''input_boolean.automoli'']\<rparr>))) 0 = None"
  by (simp add: demo_env_def demo_state_def motion_detected_def cancel_handles_def)

text \<open>
  C3, as amended. On the state-change path, \<^verbatim>\<open>motion_detected\<close> cancels the pending
  timers, leaves the handle set empty and schedules nothing. The handler it names,
  \<^verbatim>\<open>motion_event\<close>, makes no \<^verbatim>\<open>refresh_timer\<close> call of its own for the event name
  \<^verbatim>\<open>state_changed_detection\<close>: it ends after the disable check or after the turn-on
  step, so that running it on the state \<^verbatim>\<open>motion_detected\<close> leaves keeps the handle set
  empty unless the active light setting is 0 (where turning on defers to
  \<^verbatim>\<open>lights_off\<close>). The timer starts again in \<^verbatim>\<open>motion_cleared\<close>: when every motion
  sensor reads the configured off state it is \<^verbatim>\<open>refresh_timer\<close>, which leaves exactly
  one new timer for the active delay when that is not 0; otherwise it only cancels. With
  any other event name (the discrete motion event), no disable switch off and a turn-on
  step that returns, \<^verbatim>\<open>motion_event\<close> calls \<^verbatim>\<open>refresh_timer\<close> after the turn-on step.
\<close>

theorem motion_timer_restart:
  "handles (snd (motion_detected env entity w)) = {}
   \<and> timers (snd (motion_detected env entity w))
       = (\<lambda>h. if h \<in> handles w then None else timers w h)
   \<and> next_handle (snd (motion_detected env entity w)) = next_handle w
   \<and> motion_event env ''state_changed_detection'' entity w
       = (case disabled_by env (disable_switch_entities w) of
            Some e \<Rightarrow>
              (None, lg (LogDisabled e) (lg (LogReceivedEvent ''state_changed_detection'' entity) w))
          | None \<Rightarrow> turn_on_step env (lg (LogReceivedEvent ''state_changed_detection'' entity) w))
   \<and> (handles (snd (motion_event env ''state_changed_detection'' entity
                       (snd (motion_detected env entity w)))) = {}
        \<or> (\<exists>d. active w = Some d \<and> dt_light_setting d = LInt 0))
   \<and> (list_all (\<lambda>s. get_state env s = motion_off w) (sensors_motion w) \<longrightarrow>
        motion_cleared env w = refresh_timer w
        \<and> handles (snd (motion_cleared env w))
            = (case active w of None \<Rightarrow> {}
               | Some d \<Rightarrow> if dt_delay d \<noteq> 0 then {next_handle w} else {})
        \<and> timers (snd (motion_cleared env w)) (next_handle w)
            = (case active w of None \<Rightarrow> timers (cancel_handles w) (next_handle w)
               | Some d \<Rightarrow> if dt_delay d \<noteq> 0 then Some (dt_delay d)
                           else timers (cancel_handles w) (next_handle w)))
   \<and> (\<not> list_all (\<lambda>s. get_state env s = motion_off w) (sensors_motion w) \<longrightarrow>
        motion_cleared env w = (None, cancel_handles w))
   \<and> (disabled_by env (disable_switch_entities w) = None \<and> event \<noteq> ''state_changed_detection'' \<longrightarrow>
        motion_event env event entity w
          = (case turn_on_step env (lg (LogReceivedEvent event entity) w) of
               (Some e, w2) \<Rightarrow> (Some e, w2)
             | (None, w2) \<Rightarrow> refresh_timer w2))"
proof -
  let ?scd = "''state_changed_detection''"
  have ev: "motion_event env ?scd entity w'
       = (case disabled_by env (disable_switch_entities w') of
            Some e \<Rightarrow> (None, lg (LogDisabled e) (lg (LogReceivedEvent ?scd entity) w'))
          | None \<Rightarrow> turn_on_step env (lg (LogReceivedEvent ?scd entity) w'))" for w'
  proof (cases "disabled_by env (disable_switch_entities w')")
    case None
    then have "is_disabled env (lg (LogReceivedEvent ?scd entity) w')
                 = (False, lg (LogReceivedEvent ?scd entity) w')"
      by (simp add: is_disabled_None)
    then show ?thesis
      using None by (simp add: motion_event_def turn_on_step_def split: prod.splits option.splits)
  next
    case (Some e)
    then have "is_disabled env (lg (LogReceivedEvent ?scd entity) w')
                 = (True, lg (LogDisabled e) (lg (LogReceivedEvent ?scd entity) w'))"
      by (simp add: is_disabled_Some)
    then show ?thesis using Some by (simp add: motion_event_def)
  qed
  have stay: "handles (snd (motion_event env ?scd entity (cancel_handles w))) = {}"
    if "\<not> (\<exists>d. active w = Some d \<and> dt_light_setting d = LInt 0)"
  proof -
    let ?w1 = "lg (LogReceivedEvent ?scd entity) (cancel_handles w)"
    have c: "(case active ?w1 of None \<Rightarrow> True | Some d \<Rightarrow> dt_light_setting d \<noteq> LInt 0)"
      using that by (auto split: option.splits)
    have "handles (snd (turn_on_step env ?w1)) = {}"
      using handles_lights_on [OF c, of env] by (simp add: turn_on_step_def)
    then show ?thesis
      unfolding ev by (simp add: cancel_handles_def split: option.splits)
  qed
  have cl: "motion_cleared env w = refresh_timer w"
    if "list_all (\<lambda>s. get_state env s = motion_off w) (sensors_motion w)"
    using that by (simp add: motion_cleared_def)
  have tm: "timers (snd (refresh_timer w)) (next_handle w)
            = (case active w of None \<Rightarrow> timers (cancel_handles w) (next_handle w)
               | Some d \<Rightarrow> if dt_delay d \<noteq> 0 then Some (dt_delay d)
                           else timers (cancel_handles w) (next_handle w))"
    by (simp add: refresh_timer_def Let_def run_in_add_def split: option.splits)
  have nc: "motion_cleared env w = (None, cancel_handles w)"
    if "\<not> list_all (\<lambda>s. get_state env s = motion_off w) (sensors_motion w)"
    using that by (simp add: motion_cleared_def)
  have dis: "motion_event env event entity w
          = (case turn_on_step env (lg (LogReceivedEvent event entity) w) of
               (Some e, w2) \<Rightarrow> (Some e, w2)
             | (None, w2) \<Rightarrow> refresh_timer w2)"
    if "disabled_by env (disable_switch_entities w) = None" "event \<noteq> ?scd"
  proof -
    have "is_disabled env (lg (LogReceivedEvent event entity) w)
            = (False, lg (LogReceivedEvent event entity) w)"
      using that(1) by (simp add: is_disabled_None)
    then show ?thesis
      using that(2) by (simp add: motion_event_def turn_on_step_def split: prod.splits option.splits)
  qed
  have md: "snd (motion_detected env entity w) = cancel_handles w"
    by (simp add: motion_detected_def)
  have tmd: "timers (cancel_handles w) = (\<lambda>h. if h \<in> handles w then None else timers w h)"
    by (simp add: cancel_handles_def)
  show ?thesis
    using ev [of w] stay cl nc dis tm
    by (auto simp: md tmd handles_refresh_timer)
qed

theorem motion_timer_restart_witness:
  "list_all (\<lambda>s. get_state (demo_env [(''binary_sensor.motion_sensor_kitchen'', ''off'')] 28800) s
                 = motion_off (demo_state\<lparr>motion_on := Some ''on'', motion_off := Some ''off''\<rparr>))
      (sensors_motion (demo_state\<lparr>motion_on := Some ''on'', motion_off := Some ''off''\<rparr>))
   \<and> handles (snd (motion_cleared (demo_env [(''binary_sensor.motion_sensor_kitchen'', ''off'')] 28800)
                     (demo_state\<lparr>motion_on := Some ''on'', motion_off := Some ''off''\<rparr>))) = {1}
   \<and> timers (snd (motion_cleared (demo_env [(''binary_sensor.motion_sensor_kitchen'', ''off'')] 28800)
                     (demo_state\<lparr>motion_on := Some ''on'', motion_off := Some ''off''\<rparr>))) 1 = Some 150
   \<and> \<not> list_all (\<lambda>s. get_state (demo_env [(''binary_sensor.motion_sensor_kitchen'', ''on'')] 28800) s
                 = motion_off (demo_state\<lparr>motion_on := Some ''on'', motion_off := Some ''off''\<rparr>))
      (sensors_motion (demo_state\<lparr>motion_on := Some ''on'', motion_off := Some ''off''\<rparr>))
   \<and> handles (snd (motion_cleared (demo_env [(''binary_sensor.motion_sensor_kitchen'', ''on'')] 28800)
                     (demo_state\<lparr>motion_on := Some ''on'', motion_off := Some ''off''\<rparr>))) = {}
   \<and> handles (snd (motion_detected (demo_env [(''light.kitchen'', ''on'')] 28800)
                     ''binary_sensor.motion_sensor_kitchen'' demo_state)) = {}
   \<and> disabled_by (demo_env [(''light.kitchen'', ''on'')] 28800) (disable_switch_entities demo_state) = None
   \<and> motion_event (demo_env [(''light.kitchen'', ''on'')] 28800) ''xiaomi_aqara.motion''
        ''binary_sensor.motion_sensor_kitchen'' demo_state
      = refresh_timer (lg LogAlreadyOn
          (lg (LogReceivedEvent ''xiaomi_aqara.motion'' ''binary_sensor.motion_sensor_kitchen'') demo_state))"
proof -
  let ?w = "demo_state\<lparr>motion_on := Some ''on'', motion_off := Some ''off''\<rparr>"
  let ?off = "demo_env [(''binary_sensor.motion_sensor_kitchen'', ''off'')] 28800"
  let ?on = "demo_env [(''binary_sensor.motion_sensor_kitchen'', ''on'')] 28800"
  let ?lit = "demo_env [(''light.kitchen'', ''on'')] 28800"
  have a1: "list_all (\<lambda>s. get_state ?off s = motion_off ?w) (sensors_motion ?w)"
    by (simp add: demo_state_def demo_env_def)
  have a2: "\<not> list_all (\<lambda>s. get_state ?on s = motion_off ?w) (sensors_motion ?w)"
    by (simp add: demo_state_def demo_env_def)
  have f: "active ?w = Some \<lparr>dt_daytime = ''day'', dt_delay = 150, dt_starttime = 27000,
                              dt_light_setting = LInt 100, dt_is_hue_group = False\<rparr>"
      "next_handle ?w = 1"
    by (simp_all add: demo_state_def)
  have A0: "handles (snd (motion_cleared ?off ?w))
              = (case active ?w of None \<Rightarrow> {}
                 | Some d \<Rightarrow> if dt_delay d \<noteq> 0 then {next_handle ?w} else {})
           \<and> timers (snd (motion_cleared ?off ?w)) (next_handle ?w)
              = (case active ?w of None \<Rightarrow> timers (cancel_handles ?w) (next_handle ?w)
                 | Some d \<Rightarrow> if dt_delay d \<noteq> 0 then Some (dt_delay d)
                             else timers (cancel_handles ?w) (next_handle ?w))"
    using motion_timer_restart [of ?off "''binary_sensor.motion_sensor_kitchen''" ?w "''xiaomi_aqara.motion''"]
          a1
    by blast
  have A: "handles (snd (motion_cleared ?off ?w)) = {1}
           \<and> timers (snd (motion_cleared ?off ?w)) 1 = Some 150"
    using A0 unfolding f by simp
  have B0: "motion_cleared ?on ?w = (None, cancel_handles ?w)"
    using motion_timer_restart [of ?on "''binary_sensor.motion_sensor_kitchen''" ?w "''xiaomi_aqara.motion''"]
          a2
    by blast
  have B: "handles (snd (motion_cleared ?on ?w)) = {}"
    unfolding B0 by simp
  have h: "disabled_by ?lit (disable_switch_entities demo_state) = None"
    by (simp add: demo_state_def)
  have l: "any_light_on ?lit demo_state"
    by (simp add: any_light_on_def demo_state_def demo_env_def)
  have C: "handles (snd (motion_detected ?lit ''binary_sensor.motion_sensor_kitchen'' demo_state)) = {}
           \<and> motion_event ?lit ''xiaomi_aqara.motion'' ''binary_sensor.motion_sensor_kitchen'' demo_state
              = refresh_timer (lg LogAlreadyOn
                  (lg (LogReceivedEvent ''xiaomi_aqara.motion'' ''binary_sensor.motion_sensor_kitchen'') demo_state))"
    using motion_timer_restart [of ?lit "''binary_sensor.motion_sensor_kitchen''" demo_state "''xiaomi_aqara.motion''"]
          h l
    by (simp add: turn_on_step_def)
  show ?thesis
    using a1 a2 A B C h by blast
qed

text \<open>
  C3 as stated fails in both halves. With a light on and the \<open>day\<close> delay of 150 s: after
  the state-change callback no timer is scheduled, also when the body it names is run on the
  result; after the discrete motion event a new timer for 150 s is pending, with no sensor
  having cleared.
\<close>

theorem motion_timer_restart_counterexample:
  "handles (snd (motion_detected (demo_env [(''light.kitchen'', ''on'')] 28800)
                     ''binary_sensor.motion_sensor_kitchen'' demo_state)) = {}
   \<and> timers (snd (motion_detected (demo_env [(''light.kitchen'', ''on'')] 28800)
                     ''binary_sensor.motion_sensor_kitchen'' demo_state)) = Map.empty
   \<and> handles (snd (motion_event (demo_env [(''light.kitchen'', ''on'')] 28800) ''state_changed_detection''
                     ''binary_sensor.motion_sensor_kitchen''
                     (snd (motion_detected (demo_env [(''light.kitchen'', ''on'')] 28800)
                        ''binary_sensor.motion_sensor_kitchen'' demo_state)))) = {}
   \<and> handles (snd (motion_event (demo_env [(''light.kitchen'', ''on'')] 28800) ''xiaomi_aqara.motion''
                     ''binary_sensor.motion_sensor_kitchen'' demo_state)) = {1}
   \<and> timers (snd (motion_event (demo_env [(''light.kitchen'', ''on'')] 28800) ''xiaomi_aqara.motion''
                     ''binary_sensor.motion_sensor_kitchen'' demo_state)) 1 = Some 150"
  by (simp add: demo_env_def demo_state_def motion_detected_def motion_event_def is_disabled_def
        any_light_on_def lg_def refresh_timer_def cancel_handles_def run_in_add_def fun_eq_iff)

text \<open>
  C4, as amended. With an illuminance threshold that Python counts as true, \<^verbatim>\<open>lights_on\<close>
  reads the illuminance sensors in turn. If a sensor has no state or a state string that
  \<^verbatim>\<open>float\<close> rejects, the method ends without a service call: it raises
  \<^verbatim>\<open>TypeError\<close> (a sensor has no state) or adds the one log line "could not parse"
  for that sensor, never the "bright enough" line. If \<^verbatim>\<open>float\<close> returns for every
  sensor and some reading compares at or above the threshold, it adds the one log line
  "bright enough" with exactly the blocking sensors, never the "could not parse" line, and
  makes no service call. In both cases the handles and timers stay as they were. A state
  that \<^verbatim>\<open>float\<close> accepts as not-a-number is not among the unreadable ones: it
  compares below every threshold, so the sensor neither blocks nor ends the method, and
  when \<^verbatim>\<open>float\<close> returns for every sensor and no reading compares at or above the
  threshold the check passes.
\<close>

theorem illuminance_gate_fail_closed:
  assumes "thr_illuminance w = Some t" and "t \<noteq> 0"
  shows "(list_ex (\<lambda>s. reading env s = None) (sensors_illuminance w) \<longrightarrow>
            ((lights_on env w = (Some TypeError, w)
                \<and> (\<exists>s\<in>set (sensors_illuminance w). get_state env s = None))
             \<or> (\<exists>s\<in>set (sensors_illuminance w). get_state env s \<noteq> None \<and> reading env s = None
                  \<and> lights_on env w
                      = (None, w\<lparr>logs := logs w @ [LogCouldNotParseIlluminance s]\<rparr>)))
            \<and> (\<forall>b. logs (snd (lights_on env w)) \<noteq> logs w @ [LogBrightEnough b]))
       \<and> (list_all (\<lambda>s. reading env s \<noteq> None) (sensors_illuminance w)
            \<and> list_ex (blocks env t) (sensors_illuminance w) \<longrightarrow>
            lights_on env w
              = (None, w\<lparr>logs := logs w
                          @ [LogBrightEnough (filter (blocks env t) (sensors_illuminance w))]\<rparr>)
            \<and> (\<forall>s. logs (snd (lights_on env w)) \<noteq> logs w @ [LogCouldNotParseIlluminance s]))
       \<and> (list_ex (\<lambda>s. reading env s = None) (sensors_illuminance w)
            \<or> list_ex (blocks env t) (sensors_illuminance w) \<longrightarrow>
            calls (snd (lights_on env w)) = calls w
            \<and> handles (snd (lights_on env w)) = handles w
            \<and> timers (snd (lights_on env w)) = timers w)
       \<and> (\<forall>s. reading env s = Some NaN \<longrightarrow> \<not> blocks env t s)
       \<and> (list_all (\<lambda>s. reading env s \<noteq> None) (sensors_illuminance w)
            \<and> \<not> list_ex (blocks env t) (sensors_illuminance w) \<longrightarrow>
            illuminance_gate env w = GatePass)"
proof -
  let ?ss = "sensors_illuminance w"
  have g: "illuminance_gate env w = illuminance_loop env t ?ss []"
    using assms by (simp add: illuminance_gate_def)
  have a: "(lights_on env w = (Some TypeError, w) \<and> (\<exists>s\<in>set ?ss. get_state env s = None))
            \<or> (\<exists>s\<in>set ?ss. get_state env s \<noteq> None \<and> reading env s = None
                  \<and> lights_on env w = (None, w\<lparr>logs := logs w @ [LogCouldNotParseIlluminance s]\<rparr>))"
    if "list_ex (\<lambda>s. reading env s = None) ?ss"
    using illuminance_loop_unreadable [OF that, of t "[]"] by (auto simp: lights_on_def g lg_def)
  have a': "logs (snd (lights_on env w)) \<noteq> logs w @ [LogBrightEnough b]"
    if "list_ex (\<lambda>s. reading env s = None) ?ss" for b
    using a [OF that] by auto
  have b: "lights_on env w = (None, w\<lparr>logs := logs w @ [LogBrightEnough (filter (blocks env t) ?ss)]\<rparr>)"
    if "list_all (\<lambda>s. reading env s \<noteq> None) ?ss" and "list_ex (blocks env t) ?ss"
    using illuminance_loop_readable [OF that(1), of t "[]"] that(2)
    by (auto simp: lights_on_def g lg_def filter_empty_conv list_ex_iff)
  have b': "logs (snd (lights_on env w)) \<noteq> logs w @ [LogCouldNotParseIlluminance s]"
    if "list_all (\<lambda>s. reading env s \<noteq> None) ?ss" and "list_ex (blocks env t) ?ss" for s
    using b [OF that] by simp
  have c: "calls (snd (lights_on env w)) = calls w
            \<and> handles (snd (lights_on env w)) = handles w
            \<and> timers (snd (lights_on env w)) = timers w"
    if "list_ex (\<lambda>s. reading env s = None) ?ss \<or> list_ex (blocks env t) ?ss"
  proof (cases "list_ex (\<lambda>s. reading env s = None) ?ss")
    case True
    then show ?thesis using a by auto
  next
    case False
    then have "list_all (\<lambda>s. reading env s \<noteq> None) ?ss" by (simp add: not_all_readable [symmetric])
    then show ?thesis using b that False by auto
  qed
  have n: "\<not> blocks env t s" if "reading env s = Some NaN" for s
    using that by (simp add: blocks_def)
  have p: "illuminance_gate env w = GatePass"
    if "list_all (\<lambda>s. reading env s \<noteq> None) ?ss" and "\<not> list_ex (blocks env t) ?ss"
    using illuminance_loop_readable [OF that(1), of t "[]"] that(2)
    by (auto simp: g filter_empty_conv list_ex_iff)
  show ?thesis using a a' b b' c n p by blast
qed

theorem illuminance_gate_fail_closed_witness:
  "thr_illuminance (demo_state\<lparr>thr_illuminance := Some 50,
                                sensors_illuminance := [''sensor.illumination_kitchen'']\<rparr>) = Some 50
   \<and> (50::real) \<noteq> 0
   \<and> list_ex (blocks (demo_env [(''sensor.illumination_kitchen'', ''60'')] 28800) 50)
        (sensors_illuminance (demo_state\<lparr>thr_illuminance := Some 50,
                                sensors_illuminance := [''sensor.illumination_kitchen'']\<rparr>))
   \<and> lights_on (demo_env [(''sensor.illumination_kitchen'', ''60'')] 28800)
        (demo_state\<lparr>thr_illuminance := Some 50, sensors_illuminance := [''sensor.illumination_kitchen'']\<rparr>)
      = (None, demo_state\<lparr>thr_illuminance := Some 50,
                          sensors_illuminance := [''sensor.illumination_kitchen''],
                          logs := [LogBrightEnough [''sensor.illumination_kitchen'']]\<rparr>)
   \<and> calls (snd (lights_on (demo_env [(''sensor.illumination_kitchen'', ''60'')] 28800)
        (demo_state\<lparr>thr_illuminance := Some 50, sensors_illuminance := [''sensor.illumination_kitchen'']\<rparr>)))
      = []
   \<and> list_ex (\<lambda>s. reading (demo_env [(''sensor.illumination_kitchen'', ''unavailable'')] 28800) s = None)
        (sensors_illuminance (demo_state\<lparr>thr_illuminance := Some 50,
                                sensors_illuminance := [''sensor.illumination_kitchen'']\<rparr>))
   \<and> lights_on (demo_env [(''sensor.illumination_kitchen'', ''unavailable'')] 28800)
        (demo_state\<lparr>thr_illuminance := Some 50, sensors_illuminance := [''sensor.illumination_kitchen'']\<rparr>)
      = (None, demo_state\<lparr>thr_illuminance := Some 50,
                          sensors_illuminance := [''sensor.illumination_kitchen''],
                          logs := [LogCouldNotParseIlluminance ''sensor.illumination_kitchen'']\<rparr>)
   \<and> list_ex (\<lambda>s. reading (demo_env [] 28800) s = None)
        (sensors_illuminance (demo_state\<lparr>thr_illuminance := Some 50,
                                sensors_illuminance := [''sensor.illumination_kitchen'']\<rparr>))
   \<and> lights_on (demo_env [] 28800)
        (demo_state\<lparr>thr_illuminance := Some 50, sensors_illuminance := [''sensor.illumination_kitchen'']\<rparr>)
      = (Some TypeError,
         demo_state\<lparr>thr_illuminance := Some 50, sensors_illuminance := [''sensor.illumination_kitchen'']\<rparr>)
   \<and> reading (demo_env [(''sensor.illumination_kitchen'', ''nan'')] 28800)
        ''sensor.illumination_kitchen'' = Some NaN
   \<and> illuminance_gate (demo_env [(''sensor.illumination_kitchen'', ''nan'')] 28800)
        (demo_state\<lparr>thr_illuminance := Some 50, sensors_illuminance := [''sensor.illumination_kitchen'']\<rparr>)
      = GatePass"
proof -
  let ?w = "demo_state\<lparr>thr_illuminance := Some 50, sensors_illuminance := [''sensor.illumination_kitchen'']\<rparr>"
  let ?s = "''sensor.illumination_kitchen''"
  let ?env = "demo_env [(''sensor.illumination_kitchen'', ''60'')] 28800"
  let ?env' = "demo_env [(''sensor.illumination_kitchen'', ''unavailable'')] 28800"
  let ?enve = "demo_env [] 28800"
  let ?envn = "demo_env [(''sensor.illumination_kitchen'', ''nan'')] 28800"
  have h1: "thr_illuminance ?w = Some 50" by simp
  have h2: "(50::real) \<noteq> 0" by simp
  have ss: "sensors_illuminance ?w = [?s]" by simp
  have lw: "logs ?w = []" "calls ?w = []" by (simp_all add: demo_state_def)
  have rd: "reading ?env ?s = Some (Finite 60)"
    by (simp add: reading_def demo_env_def)
  have rd': "reading ?env' ?s = None" "get_state ?env' ?s \<noteq> None"
    by (simp_all add: reading_def demo_env_def)
  have rd0: "reading ?enve ?s = None" "get_state ?enve ?s = None"
    by (simp_all add: reading_def demo_env_def)
  have rdn: "reading ?envn ?s = Some NaN"
    by (simp add: reading_def demo_env_def)
  have bl: "list_ex (blocks ?env 50) (sensors_illuminance ?w)"
    by (simp add: blocks_def rd)
  have rall: "list_all (\<lambda>s. reading ?env s \<noteq> None) (sensors_illuminance ?w)"
    by (simp add: rd)
  have A0: "lights_on ?env ?w
              = (None, ?w\<lparr>logs := logs ?w @ [LogBrightEnough (filter (blocks ?env 50) (sensors_illuminance ?w))]\<rparr>)
            \<and> calls (snd (lights_on ?env ?w)) = calls ?w"
    using illuminance_gate_fail_closed [OF h1 h2, of ?env] bl rall by blast
  have A: "lights_on ?env ?w
              = (None, demo_state\<lparr>thr_illuminance := Some 50,
                          sensors_illuminance := [?s],
                          logs := [LogBrightEnough [?s]]\<rparr>)
           \<and> calls (snd (lights_on ?env ?w)) = []"
    using A0 by (simp add: blocks_def rd demo_state_def)
  have ex': "list_ex (\<lambda>s. reading ?env' s = None) (sensors_illuminance ?w)"
    by (simp add: rd')
  have B0: "(lights_on ?env' ?w = (Some TypeError, ?w)
                \<and> (\<exists>s\<in>set (sensors_illuminance ?w). get_state ?env' s = None))
             \<or> (\<exists>s\<in>set (sensors_illuminance ?w). get_state ?env' s \<noteq> None \<and> reading ?env' s = None
                  \<and> lights_on ?env' ?w
                      = (None, ?w\<lparr>logs := logs ?w @ [LogCouldNotParseIlluminance s]\<rparr>))"
    using illuminance_gate_fail_closed [OF h1 h2, of ?env'] ex' by blast
  have B: "lights_on ?env' ?w
              = (None, demo_state\<lparr>thr_illuminance := Some 50,
                          sensors_illuminance := [?s],
                          logs := [LogCouldNotParseIlluminance ?s]\<rparr>)"
    using B0 rd'(2) by (simp add: demo_state_def)
  have ex0: "list_ex (\<lambda>s. reading ?enve s = None) (sensors_illuminance ?w)"
    by (simp add: rd0)
  have C0: "(lights_on ?enve ?w = (Some TypeError, ?w)
                \<and> (\<exists>s\<in>set (sensors_illuminance ?w). get_state ?enve s = None))
             \<or> (\<exists>s\<in>set (sensors_illuminance ?w). get_state ?enve s \<noteq> None \<and> reading ?enve s = None
                  \<and> lights_on ?enve ?w
                      = (None, ?w\<lparr>logs := logs ?w @ [LogCouldNotParseIlluminance s]\<rparr>))"
    using illuminance_gate_fail_closed [OF h1 h2, of ?enve] ex0 by blast
  have C: "lights_on ?enve ?w = (Some TypeError, ?w)"
    using C0 rd0(2) by simp
  have nb: "\<not> blocks ?envn 50 ?s"
    using illuminance_gate_fail_closed [OF h1 h2, of ?envn] rdn by blast
  have ralln: "list_all (\<lambda>s. reading ?envn s \<noteq> None) (sensors_illuminance ?w)"
    by (simp add: rdn)
  have nex: "\<not> list_ex (blocks ?envn 50) (sensors_illuminance ?w)"
    using nb by simp
  have D: "illuminance_gate ?envn ?w = GatePass"
    using illuminance_gate_fail_closed [OF h1 h2, of ?envn] ralln nex by blast
  show ?thesis
    using h1 h2 bl A ex' B ex0 C rdn D by blast
qed

text \<open>
  C4 as stated fails for a reading that is not a number but that \<^verbatim>\<open>float\<close> accepts.
  With the threshold 50 and the one illuminance sensor in the state \<^verbatim>\<open>"nan"\<close>,
  \<^verbatim>\<open>float\<close> returns not-a-number, the comparison with the threshold is false, and
  \<^verbatim>\<open>lights_on\<close> turns the kitchen light on at the brightness of the active daytime.
\<close>

theorem illuminance_gate_fail_closed_counterexample:
  "thr_illuminance (demo_state\<lparr>thr_illuminance := Some 50,
                                sensors_illuminance := [''sensor.illumination_kitchen'']\<rparr>) = Some 50
   \<and> get_state (demo_env [(''sensor.illumination_kitchen'', ''nan'')] 28800)
        ''sensor.illumination_kitchen'' = Some ''nan''
   \<and> to_float (demo_env [(''sensor.illumination_kitchen'', ''nan'')] 28800) ''nan'' = Some NaN
   \<and> lights_on (demo_env [(''sensor.illumination_kitchen'', ''nan'')] 28800)
        (demo_state\<lparr>thr_illuminance := Some 50, sensors_illuminance := [''sensor.illumination_kitchen'']\<rparr>)
      = (None, demo_state\<lparr>thr_illuminance := Some 50,
                          sensors_illuminance := [''sensor.illumination_kitchen''],
                          calls := [TurnOn ''light.kitchen'' (Some 100)],
                          logs := [LogTurnedOnBrightness 100]\<rparr>)"
  by (simp add: demo_env_def demo_state_def lights_on_def illuminance_gate_def startswith_def
        call_service_def lg_def)

text \<open>
  C5, as amended. With a humidity threshold that Python counts as true, no disable switch
  off, a daytime active and a state string for every humidity sensor: the strings
  \<^verbatim>\<open>float\<close> rejects are skipped, the blockers are the sensors that read a number at
  or above the threshold, and if there is one, \<^verbatim>\<open>lights_off\<close> makes no service call
  and calls \<^verbatim>\<open>refresh_timer\<close>: the old timers are cancelled and, when the active delay
  is not 0, exactly one new timer for that delay is scheduled; when the delay is 0 none is.
\<close>

theorem humidity_blocks_turn_off:
  assumes "thr_humidity w = Some t" and "t \<noteq> 0"
    and "disabled_by env (disable_switch_entities w) = None"
    and "list_all (\<lambda>s. get_state env s \<noteq> None) (sensors_humidity w)"
    and "list_ex (blocks env t) (sensors_humidity w)"
    and "active w = Some d"
  shows "humidity_blocker env w = Inr (filter (blocks env t) (sensors_humidity w))
       \<and> lights_off env w
           = (None, lg (LogHumidityBlocked (last (filter (blocks env t) (sensors_humidity w))))
                      (snd (refresh_timer w)))
       \<and> calls (snd (lights_off env w)) = calls w
       \<and> handles (snd (lights_off env w)) = (if dt_delay d \<noteq> 0 then {next_handle w} else {})
       \<and> timers (snd (lights_off env w))
           = (if dt_delay d \<noteq> 0 then (timers (cancel_handles w))(next_handle w \<mapsto> dt_delay d)
              else timers (cancel_handles w))"
proof -
  let ?b = "filter (blocks env t) (sensors_humidity w)"
  have hb: "humidity_blocker env w = Inr ?b"
    using assms(1,2) humidity_loop_states [OF assms(4), of t "[]"] by (simp add: humidity_blocker_def)
  have ne: "?b \<noteq> []"
    using assms(5) by (auto simp: filter_empty_conv list_ex_iff)
  have "fst (refresh_timer w) = None"
    using assms(6) by (simp add: refresh_timer_def Let_def)
  then obtain w2 where r: "refresh_timer w = (None, w2)"
    by (cases "refresh_timer w") simp
  have lo: "lights_off env w = (None, lg (LogHumidityBlocked (last ?b)) w2)"
    using r ne by (simp add: lights_off_def is_disabled_None [OF assms(3)] hb)
  have w2: "w2 = snd (refresh_timer w)"
    using r by simp
  have t: "timers w2 = (if dt_delay d \<noteq> 0 then (timers (cancel_handles w))(next_handle w \<mapsto> dt_delay d)
              else timers (cancel_handles w))"
    using assms(6) by (simp add: w2 refresh_timer_def Let_def run_in_add_def)
  have h: "handles w2 = (if dt_delay d \<noteq> 0 then {next_handle w} else {})"
    using assms(6) by (simp add: w2 handles_refresh_timer)
  have c: "calls w2 = calls w"
    by (simp add: w2)
  show ?thesis
    using hb lo t h c by (simp add: w2)
qed

theorem humidity_blocks_turn_off_witness:
  "thr_humidity (demo_state\<lparr>thr_humidity := Some 60,
                   sensors_humidity := [''sensor.humidity_a'', ''sensor.humidity_b'']\<rparr>) = Some 60
   \<and> (60::real) \<noteq> 0
   \<and> disabled_by (demo_env [(''sensor.humidity_a'', ''unavailable''), (''sensor.humidity_b'', ''75'')] 28800)
        (disable_switch_entities (demo_state\<lparr>thr_humidity := Some 60,
                   sensors_humidity := [''sensor.humidity_a'', ''sensor.humidity_b'']\<rparr>)) = None
   \<and> humidity_blocker (demo_env [(''sensor.humidity_a'', ''unavailable''), (''sensor.humidity_b'', ''75'')] 28800)
        (demo_state\<lparr>thr_humidity := Some 60,
                   sensors_humidity := [''sensor.humidity_a'', ''sensor.humidity_b'']\<rparr>)
      = Inr [''sensor.humidity_b'']
   \<and> calls (snd (lights_off (demo_env [(''sensor.humidity_a'', ''unavailable''), (''sensor.humidity_b'', ''75'')] 28800)
        (demo_state\<lparr>thr_humidity := Some 60,
                   sensors_humidity := [''sensor.humidity_a'', ''sensor.humidity_b'']\<rparr>))) = []
   \<and> handles (snd (lights_off (demo_env [(''sensor.humidity_a'', ''unavailable''), (''sensor.humidity_b'', ''75'')] 28800)
        (demo_state\<lparr>thr_humidity := Some 60,
                   sensors_humidity := [''sensor.humidity_a'', ''sensor.humidity_b'']\<rparr>))) = {1}
   \<and> timers (snd (lights_off (demo_env [(''sensor.humidity_a'', ''unavailable''), (''sensor.humidity_b'', ''75'')] 28800)
        (demo_state\<lparr>thr_humidity := Some 60,
                   sensors_humidity := [''sensor.humidity_a'', ''sensor.humidity_b'']\<rparr>))) 1 = Some 150"
proof -
  let ?w = "demo_state\<lparr>thr_humidity := Some 60,
                   sensors_humidity := [''sensor.humidity_a'', ''sensor.humidity_b'']\<rparr>"
  let ?env = "demo_env [(''sensor.humidity_a'', ''unavailable''), (''sensor.humidity_b'', ''75'')] 28800"
  let ?d = "\<lparr>dt_daytime = ''day'', dt_delay = 150, dt_starttime = 27000,
                      dt_light_setting = LInt 100, dt_is_hue_group = False\<rparr>"
  have h1: "thr_humidity ?w = Some 60" by simp
  have h2: "(60::real) \<noteq> 0" by simp
  have h3: "disabled_by ?env (disable_switch_entities ?w) = None" by (simp add: demo_state_def)
  have h4: "list_all (\<lambda>s. get_state ?env s \<noteq> None) (sensors_humidity ?w)" by (simp add: demo_env_def)
  have ra: "reading ?env ''sensor.humidity_a'' = None" by (simp add: reading_def demo_env_def)
  have rb: "reading ?env ''sensor.humidity_b'' = Some (Finite 75)" by (simp add: reading_def demo_env_def)
  have h5: "list_ex (blocks ?env 60) (sensors_humidity ?w)" by (simp add: blocks_def ra rb)
  have h6: "active ?w = Some ?d" by (simp add: demo_state_def)
  have f: "calls ?w = []" "next_handle ?w = 1" by (simp_all add: demo_state_def)
  note T = humidity_blocks_turn_off [OF h1 h2 h3 h4 h5 h6]
  have A: "humidity_blocker ?env ?w = Inr [''sensor.humidity_b'']"
    using T [THEN conjunct1] by (simp add: blocks_def ra rb)
  have B: "calls (snd (lights_off ?env ?w)) = [] \<and> handles (snd (lights_off ?env ?w)) = {1}
           \<and> timers (snd (lights_off ?env ?w)) 1 = Some 150"
    using T [THEN conjunct2, THEN conjunct2] f by simp
  show ?thesis
    using h3 A B by simp
qed

text \<open>
  C5 as stated fails where the code has its own guards. With the active delay 0 and a
  sensor at 75 against the threshold 60, \<^verbatim>\<open>lights_off\<close> returns with no handle and no
  timer left: nothing will check the humidity again. With a disable switch off (and no
  timer pending), it returns before the humidity check and schedules nothing.
\<close>

theorem humidity_blocks_turn_off_counterexample:
  "humidity_blocker (demo_env [(''sensor.humidity_b'', ''75'')] 28800)
     (demo_state\<lparr>thr_humidity := Some 60, sensors_humidity := [''sensor.humidity_b''],
        active := Some \<lparr>dt_daytime = ''day'', dt_delay = 0, dt_starttime = 27000,
                        dt_light_setting = LInt 100, dt_is_hue_group = False\<rparr>\<rparr>)
     = Inr [''sensor.humidity_b'']
   \<and> fst (lights_off (demo_env [(''sensor.humidity_b'', ''75'')] 28800)
     (demo_state\<lparr>thr_humidity := Some 60, sensors_humidity := [''sensor.humidity_b''],
        active := Some \<lparr>dt_daytime = ''day'', dt_delay = 0, dt_starttime = 27000,
                        dt_light_setting = LInt 100, dt_is_hue_group = False\<rparr>\<rparr>)) = None
   \<and> handles (snd (lights_off (demo_env [(''sensor.humidity_b'', ''75'')] 28800)
     (demo_state\<lparr>thr_humidity := Some 60, sensors_humidity := [''sensor.humidity_b''],
        active := Some \<lparr>dt_daytime = ''day'', dt_delay = 0, dt_starttime = 27000,
                        dt_light_setting = LInt 100, dt_is_hue_group = False\<rparr>\<rparr>))) = {}
   \<and> timers (snd (lights_off (demo_env [(''sensor.humidity_b'', ''75'')] 28800)
     (demo_state\<lparr>thr_humidity := Some 60, sensors_humidity := [''sensor.humidity_b''],
        active := Some \<lparr>dt_daytime = ''day'', dt_delay = 0, dt_starttime = 27000,
                        dt_light_setting = LInt 100, dt_is_hue_group = False\<rparr>\<rparr>))) = Map.empty
   \<and> handles (snd (lights_off (demo_env [(''sensor.humidity_b'', ''75''), (''input_boolean.automoli'', ''off'')] 28800)
     (demo_state\<lparr>thr_humidity := Some 60, sensors_humidity := [''sensor.humidity_b''],
        disable_switch_entities := [''input_boolean.automoli''],
        handles := {}, timers := Map.empty\<rparr>))) = {}
   \<and> timers (snd (lights_off (demo_env [(''sensor.humidity_b'', ''75''), (''input_boolean.automoli'', ''off'')] 28800)
     (demo_state\<lparr>thr_humidity := Some 60, sensors_humidity := [''sensor.humidity_b''],
        disable_switch_entities := [''input_boolean.automoli''],
        handles := {}, timers := Map.empty\<rparr>))) = Map.empty"
  by (simp add: demo_env_def demo_state_def lights_off_def is_disabled_def humidity_blocker_def
        refresh_timer_def cancel_handles_def lg_def fun_eq_iff)

text \<open>
  C10. A threshold option that Python counts as false (the value 0, or no value) switches
  its gate off for good: in every state reached from \<^verbatim>\<open>initialize\<close> by any sequence
  of callbacks, whatever the sensors read, the illuminance check of \<^verbatim>\<open>lights_on\<close>
  passes and the humidity check of \<^verbatim>\<open>lights_off\<close> finds no blocker. The same holds in
  any state whose threshold attribute is false, sensors configured or not.
\<close>

theorem falsy_threshold_disables_gate:
  "(\<not> truthy (arg_illuminance_threshold a) \<longrightarrow>
      illuminance_gate env (run evs (snd (initialize env0 a))) = GatePass)
   \<and> (\<not> truthy (arg_humidity_threshold a) \<longrightarrow>
      humidity_blocker env (run evs (snd (initialize env0 a))) = Inr [])
   \<and> (\<not> truthy (thr_illuminance w) \<longrightarrow> illuminance_gate env w = GatePass)
   \<and> (\<not> truthy (thr_humidity w) \<longrightarrow> humidity_blocker env w = Inr [])"
proof -
  have direct: "(\<not> truthy (thr_illuminance w) \<longrightarrow> illuminance_gate env w = GatePass)
   \<and> (\<not> truthy (thr_humidity w) \<longrightarrow> humidity_blocker env w = Inr [])"
    by (cases "thr_illuminance w"; cases "thr_humidity w")
       (auto simp: illuminance_gate_def humidity_blocker_def)
  let ?w = "run evs (snd (initialize env0 a))"
  have "thr_humidity ?w = thr_humidity (snd (initialize env0 a))
        \<and> thr_illuminance ?w = thr_illuminance (snd (initialize env0 a))"
    using config_thresholds [OF config_run [of evs "snd (initialize env0 a)"]] by simp
  then have "(\<not> truthy (arg_humidity_threshold a) \<longrightarrow> thr_humidity ?w = arg_humidity_threshold a)
      \<and> (\<not> truthy (arg_illuminance_threshold a) \<longrightarrow> thr_illuminance ?w = arg_illuminance_threshold a)"
    using initialize_thresholds [of a env0] by simp
  then have "(\<not> truthy (arg_illuminance_threshold a) \<longrightarrow> illuminance_gate env ?w = GatePass)
   \<and> (\<not> truthy (arg_humidity_threshold a) \<longrightarrow> humidity_blocker env ?w = Inr [])"
    by (cases "arg_illuminance_threshold a"; cases "arg_humidity_threshold a")
       (auto simp: illuminance_gate_def humidity_blocker_def)
  then show ?thesis using direct by blast
qed

theorem falsy_threshold_disables_gate_witness:
  "\<not> truthy (arg_illuminance_threshold
        (demo_args\<lparr>arg_humidity_threshold := Some 0, arg_illuminance_threshold := Some 0\<rparr>))
   \<and> illuminance_gate (demo_env [(''sensor.illumination_kitchen'', ''60'')] 28800)
        (run [(demo_env [] 28800, MotionCleared)]
           (snd (initialize (demo_env [] 28800)
                   (demo_args\<lparr>arg_humidity_threshold := Some 0, arg_illuminance_threshold := Some 0\<rparr>))))
       = GatePass
   \<and> \<not> truthy (arg_humidity_threshold
        (demo_args\<lparr>arg_humidity_threshold := Some 0, arg_illuminance_threshold := Some 0\<rparr>))
   \<and> humidity_blocker (demo_env [(''sensor.humidity_b'', ''75'')] 28800)
        (run [(demo_env [] 28800, MotionCleared)]
           (snd (initialize (demo_env [] 28800)
                   (demo_args\<lparr>arg_humidity_threshold := Some 0, arg_illuminance_threshold := Some 0\<rparr>))))
       = Inr []
   \<and> illuminance_gate (demo_env [(''sensor.illumination_kitchen'', ''60'')] 28800)
        (demo_state\<lparr>thr_illuminance := Some 0, sensors_illuminance := [''sensor.illumination_kitchen'']\<rparr>)
       = GatePass"
  using falsy_threshold_disables_gate
          [of "demo_args\<lparr>arg_humidity_threshold := Some 0, arg_illuminance_threshold := Some 0\<rparr>"
              "demo_env [(''sensor.illumination_kitchen'', ''60'')] 28800"
              "[(demo_env [] 28800, MotionCleared)]" "demo_env [] 28800"
              "demo_state\<lparr>thr_illuminance := Some 0, sensors_illuminance := [''sensor.illumination_kitchen'']\<rparr>"]
        falsy_threshold_disables_gate
          [of "demo_args\<lparr>arg_humidity_threshold := Some 0, arg_illuminance_threshold := Some 0\<rparr>"
              "demo_env [(''sensor.humidity_b'', ''75'')] 28800"
              "[(demo_env [] 28800, MotionCleared)]" "demo_env [] 28800" demo_state]
  by simp

text \<open>
  C6. When two raw entries have the same parsed start time, \<^verbatim>\<open>build_daytimes\<close> raises:
  it never returns a schedule, and \<^verbatim>\<open>initialize\<close> given these daytimes fails. When
  every entry is well formed on its own, the exception is the \<^verbatim>\<open>ValueError\<close> of the
  uniqueness check ("Start times of all daytimes have to be unique").
\<close>

theorem duplicate_start_time_fails:
  assumes "i < j" and "j < length ds"
    and "start_of env (ds ! i) = Some t" and "start_of env (ds ! j) = Some t"
  shows "fst (build_daytimes env delay ds w) \<noteq> None
       \<and> (list_all (well_formed env) ds \<longrightarrow>
            (\<exists>t'. fst (build_daytimes env delay ds w) = Some (ValueError (DuplicateStartTime t'))))
       \<and> (arg_daytimes a = Some ds \<longrightarrow> fst (initialize env a) \<noteq> None)"
proof -
  have f: "fst (build_daytimes env delay' ds w') \<noteq> None" for delay' w'
    unfolding build_daytimes_def using assms by (rule dup_fails)
  have ne: "ds \<noteq> []" using assms(2) by auto
  have k: "\<exists>t'. fst (build_daytimes env delay ds w) = Some (ValueError (DuplicateStartTime t'))"
    if "list_all (well_formed env) ds"
  proof -
    obtain e where e: "fst (build_daytimes env delay ds w) = Some e" using f by blast
    then have "\<exists>t. e = ValueError (DuplicateStartTime t)"
      unfolding build_daytimes_def using build_error_kind [OF that ne, of ds] by blast
    then show ?thesis using e by auto
  qed
  have "fst (initialize env a) \<noteq> None" if "arg_daytimes a = Some ds"
    by (rule initialize_build_error) (simp add: that f)
  then show ?thesis using f k by blast
qed

theorem duplicate_start_time_fails_witness:
  "(0::nat) < 1
   \<and> 1 < length [\<lparr>rd_starttime = Some ''05:30'', rd_name = Some ''morning'', rd_light = Some (LInt 25), rd_delay = None\<rparr>,
                 \<lparr>rd_starttime = Some ''05:30'', rd_name = Some ''day'', rd_light = Some (LInt 100), rd_delay = None\<rparr>]
   \<and> start_of (demo_env [] 28800)
        \<lparr>rd_starttime = Some ''05:30'', rd_name = Some ''morning'', rd_light = Some (LInt 25), rd_delay = None\<rparr>
      = Some 19800
   \<and> start_of (demo_env [] 28800)
        \<lparr>rd_starttime = Some ''05:30'', rd_name = Some ''day'', rd_light = Some (LInt 100), rd_delay = None\<rparr>
      = Some 19800
   \<and> fst (build_daytimes (demo_env [] 28800) 150
        [\<lparr>rd_starttime = Some ''05:30'', rd_name = Some ''morning'', rd_light = Some (LInt 25), rd_delay = None\<rparr>,
         \<lparr>rd_starttime = Some ''05:30'', rd_name = Some ''day'', rd_light = Some (LInt 100), rd_delay = None\<rparr>]
        demo_state) \<noteq> None
   \<and> list_all (well_formed (demo_env [] 28800))
        [\<lparr>rd_starttime = Some ''05:30'', rd_name = Some ''morning'', rd_light = Some (LInt 25), rd_delay = None\<rparr>,
         \<lparr>rd_starttime = Some ''05:30'', rd_name = Some ''day'', rd_light = Some (LInt 100), rd_delay = None\<rparr>]
   \<and> (\<exists>t'. fst (build_daytimes (demo_env [] 28800) 150
        [\<lparr>rd_starttime = Some ''05:30'', rd_name = Some ''morning'', rd_light = Some (LInt 25), rd_delay = None\<rparr>,
         \<lparr>rd_starttime = Some ''05:30'', rd_name = Some ''day'', rd_light = Some (LInt 100), rd_delay = None\<rparr>]
        demo_state) = Some (ValueError (DuplicateStartTime t')))
   \<and> fst (initialize (demo_env [] 28800)
        (demo_args\<lparr>arg_daytimes := Some
        [\<lparr>rd_starttime = Some ''05:30'', rd_name = Some ''morning'', rd_light = Some (LInt 25), rd_delay = None\<rparr>,
         \<lparr>rd_starttime = Some ''05:30'', rd_name = Some ''day'', rd_light = Some (LInt 100), rd_delay = None\<rparr>]\<rparr>))
       \<noteq> None"
proof -
  let ?d0 = "\<lparr>rd_starttime = Some ''05:30'', rd_name = Some ''morning'', rd_light = Some (LInt 25), rd_delay = None\<rparr>"
  let ?d1 = "\<lparr>rd_starttime = Some ''05:30'', rd_name = Some ''day'', rd_light = Some (LInt 100), rd_delay = None\<rparr>"
  have h1: "(0::nat) < 1" by simp
  have h2: "1 < length [?d0, ?d1]" by simp
  have h3: "start_of (demo_env [] 28800) ([?d0, ?d1] ! 0) = Some 19800"
    by (simp add: start_of_def demo_env_def)
  have h4: "start_of (demo_env [] 28800) ([?d0, ?d1] ! 1) = Some 19800"
    by (simp add: start_of_def demo_env_def)
  have wf: "list_all (well_formed (demo_env [] 28800)) [?d0, ?d1]"
    by (simp add: well_formed_def start_of_def hue_group_check_def dt_light_of_def demo_env_def)
  have ad: "arg_daytimes (demo_args\<lparr>arg_daytimes := Some [?d0, ?d1]\<rparr>) = Some [?d0, ?d1]"
    by simp
  have "fst (build_daytimes (demo_env [] 28800) 150 [?d0, ?d1] demo_state) \<noteq> None
      \<and> (\<exists>t'. fst (build_daytimes (demo_env [] 28800) 150 [?d0, ?d1] demo_state)
              = Some (ValueError (DuplicateStartTime t')))
      \<and> fst (initialize (demo_env [] 28800) (demo_args\<lparr>arg_daytimes := Some [?d0, ?d1]\<rparr>)) \<noteq> None"
    using duplicate_start_time_fails
            [OF h1 h2 h3 h4, of 150 demo_state "demo_args\<lparr>arg_daytimes := Some [?d0, ?d1]\<rparr>"] wf ad
    by blast
  then show ?thesis
    using h1 h2 h3 h4 wf by simp
qed

text \<open>
  C7, on the code. An entry with no \<^verbatim>\<open>starttime\<close> key in first place makes
  \<^verbatim>\<open>daytime.get("starttime") + ":00"\<close> raise \<^verbatim>\<open>TypeError\<close>, outside the
  \<^verbatim>\<open>try\<close> whose handler would raise "missing start time in daytime '...'": the
  exception does not name the entry. A later entry whose start time does not parse is met
  first by \<^verbatim>\<open>time.fromisoformat\<close> in the round before its own, whose
  \<^verbatim>\<open>ValueError\<close> carries the string and not the entry's name.
\<close>

theorem missing_start_time_raises_type_error:
  "build_daytimes env delay
     [\<lparr>rd_starttime = None, rd_name = Some ''morning'', rd_light = Some (LInt 25), rd_delay = None\<rparr>] w
     = (Some TypeError, w)
   \<and> build_daytimes (demo_env [] 28800) delay
       [\<lparr>rd_starttime = Some ''05:30'', rd_name = Some ''morning'', rd_light = Some (LInt 25), rd_delay = None\<rparr>,
        \<lparr>rd_starttime = Some ''25:00'', rd_name = Some ''late'', rd_light = Some (LInt 90), rd_delay = None\<rparr>] w
     = (Some (ValueError (InvalidIsoformat ''25:00'')), w)"
  by (simp add: build_daytimes_def hue_group_check_def dt_light_of_def demo_env_def Let_def)

theorem missing_start_time_raises_type_error_witness:
  "build_daytimes (demo_env [] 28800) 150
     [\<lparr>rd_starttime = None, rd_name = Some ''morning'', rd_light = Some (LInt 25), rd_delay = None\<rparr>] demo_state
     = (Some TypeError, demo_state)"
  using missing_start_time_raises_type_error [of "demo_env [] 28800" 150 demo_state] by simp

text \<open>
  C9, as amended. The type of a light setting is not checked at startup: neither
  \<^verbatim>\<open>build_daytimes\<close> nor \<^verbatim>\<open>initialize\<close> ever raises the "invalid
  brightness/scene" error. The check is the last branch of \<^verbatim>\<open>lights_on\<close>: with an
  active setting that is neither a string nor an integer, once the illuminance check has
  passed, it raises \<^verbatim>\<open>ValueError\<close> and leaves the instance as it was, with no service
  call.
\<close>

theorem light_setting_checked_at_turn_on:
  "fst (initialize env a) \<noteq> Some (ValueError (InvalidBrightnessScene l))
   \<and> fst (build_daytimes env delay ds w) \<noteq> Some (ValueError (InvalidBrightnessScene l))
   \<and> (active w = Some d \<and> dt_light_setting d = LOther \<and> illuminance_gate env w = GatePass \<longrightarrow>
        lights_on env w = (Some (ValueError (InvalidBrightnessScene LOther)), w))"
  by (simp add: initialize_no_light_error build_daytimes_def build_loop_no_light_error lights_on_def)

theorem light_setting_checked_at_turn_on_witness:
  "active (demo_state\<lparr>active := Some \<lparr>dt_daytime = ''odd'', dt_delay = 150, dt_starttime = 19800,
                                       dt_light_setting = LOther, dt_is_hue_group = False\<rparr>\<rparr>)
     = Some \<lparr>dt_daytime = ''odd'', dt_delay = 150, dt_starttime = 19800,
             dt_light_setting = LOther, dt_is_hue_group = False\<rparr>
   \<and> illuminance_gate (demo_env [] 28800)
        (demo_state\<lparr>active := Some \<lparr>dt_daytime = ''odd'', dt_delay = 150, dt_starttime = 19800,
                                       dt_light_setting = LOther, dt_is_hue_group = False\<rparr>\<rparr>) = GatePass
   \<and> lights_on (demo_env [] 28800)
        (demo_state\<lparr>active := Some \<lparr>dt_daytime = ''odd'', dt_delay = 150, dt_starttime = 19800,
                                       dt_light_setting = LOther, dt_is_hue_group = False\<rparr>\<rparr>)
      = (Some (ValueError (InvalidBrightnessScene LOther)),
         demo_state\<lparr>active := Some \<lparr>dt_daytime = ''odd'', dt_delay = 150, dt_starttime = 19800,
                                       dt_light_setting = LOther, dt_is_hue_group = False\<rparr>\<rparr>)"
proof -
  let ?d = "\<lparr>dt_daytime = ''odd'', dt_delay = 150, dt_starttime = 19800,
             dt_light_setting = LOther, dt_is_hue_group = False\<rparr>"
  let ?w = "demo_state\<lparr>active := Some ?d\<rparr>"
  have g: "illuminance_gate (demo_env [] 28800) ?w = GatePass"
    by (simp add: illuminance_gate_def demo_state_def)
  show ?thesis
    using light_setting_checked_at_turn_on [of "demo_env [] 28800" demo_args LOther 150 "[]" ?w ?d] g
    by simp
qed

text \<open>
  C9 as stated fails: with two daytimes, 05:30 and 07:30, the light of the second neither a
  string nor an integer, and now = 08:00, \<^verbatim>\<open>initialize\<close> succeeds and installs the
  second setting, and the first motion event then raises in \<^verbatim>\<open>lights_on\<close>.
\<close>

theorem light_setting_checked_at_turn_on_counterexample:
  "fst (initialize (demo_env [] 28800) odd_light_args) = None
   \<and> map_option dt_light_setting (active (snd (initialize (demo_env [] 28800) odd_light_args)))
       = Some LOther
   \<and> fst (lights_on (demo_env [] 28800) (snd (initialize (demo_env [] 28800) odd_light_args)))
       = Some (ValueError (InvalidBrightnessScene LOther))
   \<and> fst (motion_event (demo_env [] 28800) ''xiaomi_aqara.motion''
             ''binary_sensor.motion_sensor_kitchen''
             (snd (initialize (demo_env [] 28800) odd_light_args)))
       = Some (ValueError (InvalidBrightnessScene LOther))"
  unfolding init_odd
  by (simp add: motion_event_def is_disabled_def any_light_on_def lights_on_def
        illuminance_gate_def lg_def demo_state_def demo_env_def)




end
